theory Spec2Isabelle
  imports Main "HOL-Library.AList"
begin

unbundle bit_operations_syntax

section \<open>Python strings\<close>

text \<open>
  Python \<open>str\<close> values are modelled as \<^typ>\<open>string\<close>.  Only the methods the two
  providers call are embedded: \<open>in\<close>, \<open>replace\<close>, \<open>split\<close>, \<open>join\<close>,
  \<open>startswith\<close>, \<open>endswith\<close>, \<open>rstrip\<close> and \<open>lower\<close>.
\<close>

text \<open>\<open>s.startswith(p)\<close> and \<open>s.endswith(p)\<close>.\<close>

definition startswith :: "string \<Rightarrow> string \<Rightarrow> bool" where
  "startswith s p = (take (length p) s = p)"

definition endswith :: "string \<Rightarrow> string \<Rightarrow> bool" where
  "endswith s p = (drop (length s - length p) s = p \<and> length p \<le> length s)"

text \<open>\<open>sub in s\<close>: \<open>sub\<close> occurs in \<open>s\<close> as a contiguous substring.\<close>

fun str_contains :: "string \<Rightarrow> string \<Rightarrow> bool" where
  "str_contains sub [] = (sub = [])"
| "str_contains sub (c # cs) = (startswith (c # cs) sub \<or> str_contains sub cs)"

text \<open>
  \<open>s.replace(old, new)\<close> for a non-empty \<open>old\<close>: the occurrences of \<open>old\<close> are
  found from the left, without overlap, and each is replaced by \<open>new\<close>.  (Both
  templates of the provider use the fixed, non-empty pattern \<open>{domain}\<close>; with an
  empty \<open>old\<close> Python inserts \<open>new\<close> between all characters, which is not
  modelled and returns the string unchanged here.)
\<close>

function str_replace :: "string \<Rightarrow> string \<Rightarrow> string \<Rightarrow> string" where
  "str_replace old new [] = []"
| "str_replace old new (c # cs) =
     (if old \<noteq> [] \<and> startswith (c # cs) old
      then new @ str_replace old new (drop (length old) (c # cs))
      else c # str_replace old new cs)"
  by pat_completeness auto
termination
  by (relation "measure (\<lambda>(old, new, s). length s)") (auto simp: startswith_def)

text \<open>\<open>s.split(sep)\<close> for a one-character separator; \<open>''.split('/')\<close> is \<open>['']\<close>.\<close>

fun str_split :: "char \<Rightarrow> string \<Rightarrow> string list" where
  "str_split sep [] = [[]]"
| "str_split sep (c # cs) =
     (if c = sep then [] # str_split sep cs
      else (case str_split sep cs of
              [] \<Rightarrow> [[c]]
            | w # ws \<Rightarrow> (c # w) # ws))"

text \<open>\<open>sep.join(xs)\<close>.\<close>

fun str_join :: "string \<Rightarrow> string list \<Rightarrow> string" where
  "str_join sep [] = []"
| "str_join sep [x] = x"
| "str_join sep (x # y # ys) = x @ sep @ str_join sep (y # ys)"

text \<open>\<open>s.rstrip(chars)\<close>: drop the longest suffix made of characters of \<open>chars\<close>.\<close>

definition rstrip :: "string \<Rightarrow> string \<Rightarrow> string" where
  "rstrip s chars = rev (dropWhile (\<lambda>c. c \<in> set chars) (rev s))"

text \<open>
  \<open>s.lower()\<close>, on the ASCII letters.  (Python also folds non-ASCII letters; the
  record contents compared here are DNS data.)
\<close>

definition lower_char :: "char \<Rightarrow> char" where
  "lower_char c =
     (if 65 \<le> (of_char c :: nat) \<and> (of_char c :: nat) \<le> 90
      then char_of ((of_char c :: nat) + 32) else c)"

definition lower :: "string \<Rightarrow> string" where
  "lower s = map lower_char s"

section \<open>The functions of \<open>os.path\<close> (POSIX flavour) used by the git provider\<close>

text \<open>
  The provider calls \<open>os.path.join\<close> and \<open>os.path.relpath\<close>; \<open>relpath\<close> calls
  \<open>abspath\<close>, \<open>normpath\<close>, \<open>commonprefix\<close> and \<open>join\<close>.  They are library
  code, embedded here after \<open>posixpath.py\<close> (the tests of the provider expect
  \<open>/\<close>-separated results).  Exceptions are values of type \<open>error\<close>.
\<close>

datatype error =
    AuthenticationError
  | ValueError
  | IndexError
  | AttributeError
  | TypeError
  | HTTPError

type_synonym 'a result = "error + 'a"

abbreviation Raised :: "error \<Rightarrow> 'a result" where
  "Raised \<equiv> Inl"

abbreviation Returned :: "'a \<Rightarrow> 'a result" where
  "Returned \<equiv> Inr"

text \<open>
  \<open>join(a, *p)\<close>: a component starting with \<open>/\<close> discards what came before;
  otherwise it is appended, with a \<open>/\<close> unless the path is empty or already ends
  with one.
\<close>

definition join_step :: "string \<Rightarrow> string \<Rightarrow> string" where
  "join_step path b =
     (if startswith b ''/'' then b
      else if path = [] \<or> endswith path ''/'' then path @ b
      else path @ ''/'' @ b)"

definition path_join :: "string \<Rightarrow> string list \<Rightarrow> string" where
  "path_join a p = foldl join_step a p"

definition isabs :: "string \<Rightarrow> bool" where
  "isabs s = startswith s ''/''"

text \<open>
  \<open>normpath(path)\<close>.  \<open>initial_slashes\<close> is 0, 1 or 2 (exactly two leading slashes
  are kept, three or more count as one).  The loop over the components keeps
  \<open>new_comps\<close>, appending at the end and popping from the end.
\<close>

definition normpath_step :: "nat \<Rightarrow> string list \<Rightarrow> string \<Rightarrow> string list" where
  "normpath_step initial_slashes new_comps cmp =
     (if cmp = [] \<or> cmp = ''.'' then new_comps
      else if cmp \<noteq> ''..'' \<or> (initial_slashes = 0 \<and> new_comps = [])
                \<or> (new_comps \<noteq> [] \<and> last new_comps = ''..'')
           then new_comps @ [cmp]
      else if new_comps \<noteq> [] then butlast new_comps
      else new_comps)"

definition initial_slashes_of :: "string \<Rightarrow> nat" where
  "initial_slashes_of path =
     (if startswith path ''/'' then
        (if startswith path ''//'' \<and> \<not> startswith path ''///'' then 2 else 1)
      else 0)"

definition normpath :: "string \<Rightarrow> string" where
  "normpath path =
     (if path = [] then ''.''
      else
        let initial_slashes = initial_slashes_of path;
            comps = str_split CHR ''/'' path;
            new_comps = foldl (normpath_step initial_slashes) [] comps;
            path1 = str_join ''/'' new_comps;
            path2 = (if initial_slashes \<noteq> 0
                     then replicate initial_slashes CHR ''/'' @ path1 else path1)
        in if path2 = [] then ''.'' else path2)"

text \<open>\<open>abspath(path)\<close>; the current directory of the process is the parameter \<open>cwd\<close>.\<close>

definition abspath :: "string \<Rightarrow> string \<Rightarrow> string" where
  "abspath cwd path =
     normpath (if \<not> isabs path then path_join cwd [path] else path)"

text \<open>\<open>commonprefix([xs, ys])\<close> on two lists of components.\<close>

fun commonprefix :: "string list \<Rightarrow> string list \<Rightarrow> string list" where
  "commonprefix (x # xs) (y # ys) = (if x = y then x # commonprefix xs ys else [])"
| "commonprefix xs ys = []"

text \<open>\<open>relpath(path, start)\<close>; raises \<open>ValueError\<close> on an empty \<open>path\<close>.\<close>

definition relpath :: "string \<Rightarrow> string \<Rightarrow> string \<Rightarrow> string result" where
  "relpath cwd path start =
     (if path = [] then Raised ValueError
      else
        let start_list = filter (\<lambda>x. x \<noteq> []) (str_split CHR ''/'' (abspath cwd start));
            path_list = filter (\<lambda>x. x \<noteq> []) (str_split CHR ''/'' (abspath cwd path));
            i = length (commonprefix start_list path_list);
            rel_list = replicate (length start_list - i) ''..'' @ drop i path_list
        in (case rel_list of
              [] \<Rightarrow> Returned ''.''
            | r # rs \<Rightarrow> Returned (path_join r rs)))"

section \<open>The git provider: path of the zone file\<close>

text \<open>
  \<open>Provider._zone_filename\<close>.  \<open>git_path\<close> is the value of the provider option
  (\<open>None\<close> when it is not configured), \<open>domain\<close> the domain of the provider.
\<close>

definition zone_filename :: "string \<Rightarrow> string option \<Rightarrow> string \<Rightarrow> string result" where
  "zone_filename cwd git_path domain =
     (let filename = (case git_path of None \<Rightarrow> [] | Some f \<Rightarrow> f);
          filename = (if str_contains ''{domain}'' filename
                      then str_replace ''{domain}'' domain filename
                      else path_join filename [domain])
      in relpath cwd (path_join ''/'' [filename]) ''/'')"

section \<open>The git library, as far as the provider uses it\<close>

text \<open>
  The provider drives GitPython.  A repository is modelled by the three things the
  provider reads and writes: the files of the working copy, the index, and the
  history of the checked-out branch (newest commit first).  A tree is an
  association list from paths, relative to the root of the working copy, to file
  contents.  The internals under \<open>.git\<close>, the remote-tracking references and the
  log output are not modelled.
\<close>

type_synonym git_tree = "(string \<times> string) list"

record actor =
  actor_name :: "string option"
  actor_email :: "string option"

record commit_obj =
  message :: string
  author :: actor
  committer :: actor
  commit_tree :: git_tree

record repo =
  worktree :: git_tree
  index :: git_tree
  commits :: "commit_obj list"

text \<open>
  \<open>repo.index.add('*')\<close>: the glob \<open>*\<close> matches the entries of the top directory
  whose name does not start with a dot; matched files (and the files under matched
  directories) are written into the index.  Nothing is removed from the index.
\<close>

definition glob_star :: "string \<Rightarrow> bool" where
  "glob_star path = (case path of [] \<Rightarrow> False | c # _ \<Rightarrow> c \<noteq> CHR ''.'')"

definition index_add_star :: "repo \<Rightarrow> repo" where
  "index_add_star r =
     r\<lparr>index := AList.merge (index r)
                   (filter (\<lambda>(path, content). glob_star path) (worktree r))\<rparr>"

text \<open>\<open>repo.head.is_valid()\<close>: the branch has a commit.\<close>

definition head_is_valid :: "repo \<Rightarrow> bool" where
  "head_is_valid r = (commits r \<noteq> [])"

text \<open>
  \<open>repo.index.diff(commit)\<close>: the list of the paths at which the index and the
  tree of the commit differ.  An empty list is falsy.
\<close>

definition index_diff :: "git_tree \<Rightarrow> git_tree \<Rightarrow> string list" where
  "index_diff idx t =
     filter (\<lambda>path. map_of idx path \<noteq> map_of t path) (remdups (map fst idx @ map fst t))"

text \<open>
  \<open>repo.index.commit(message, author=..., committer=...)\<close>: a new commit holding
  the index becomes the head.
\<close>

definition index_commit :: "string \<Rightarrow> actor \<Rightarrow> actor \<Rightarrow> repo \<Rightarrow> repo" where
  "index_commit msg a c r =
     r\<lparr>commits := \<lparr>message = msg, author = a, committer = c, commit_tree = index r\<rparr>
                    # commits r\<rparr>"

text \<open>
  What \<open>Remote.push\<close> returns is a list of \<open>PushInfo\<close> objects, each with a
  bitmask \<open>flags\<close> (a Python integer) and a \<open>summary\<close>.  \<open>PushInfo.ERROR\<close> is the
  flag \<open>1 << 10\<close> of GitPython.
\<close>

record push_info =
  flags :: int
  summary :: string

definition ERROR :: int where
  "ERROR = 1024"

text \<open>
  The outside world: the name of the directory \<open>TemporaryDirectory\<close> creates, the
  current directory of the process, the answer of \<open>git.Repo.clone_from(url,
  to_path, **kwargs)\<close> (a \<open>GitCommandError\<close> carrying \<open>stderr\<close>, or the cloned
  repository) and the answer of \<open>repo.remote().push(refspec)\<close>.  Keyword
  arguments are association lists.
\<close>

type_synonym kwargs = "(string \<times> string) list"

datatype clone_outcome = GitCommandError string | Cloned repo

record env =
  mkdtemp :: string
  getcwd :: string
  clone_from :: "string option \<Rightarrow> string \<Rightarrow> kwargs \<Rightarrow> clone_outcome"
  remote_push :: "string option \<Rightarrow> push_info list"

text \<open>
  The calls to the outside (file system, git library, remote) are recorded, in
  order; \<open>ZoneFilename\<close> marks a call of \<open>_zone_filename\<close>.
\<close>

datatype event =
    TemporaryDirectory string
  | ZoneFilename
  | CloneFrom "string option" string kwargs
  | OpenRead string
  | IndexAdd
  | IndexCommit string
  | RemotePush "string option"

section \<open>The git provider\<close>

text \<open>
  The provider options (\<open>_get_provider_option\<close> returns \<open>None\<close> for an option that
  is not configured) and the attributes of a \<open>Provider\<close> instance.
\<close>

record options =
  git_repo :: "string option"
  git_path :: "string option"
  git_branch :: "string option"
  git_push_branch :: "string option"
  git_message :: "string option"
  git_name :: "string option"
  git_email :: "string option"

record provider =
  opts :: options
  domain :: string
  filename :: string
  temp_dir :: "string option"
  repo :: "repo option"
  domain_id :: "string option"
  trace :: "event list"

text \<open>
  \<open>Provider.__init__\<close>: the base class has set \<open>domain\<close> and \<open>filename\<close>; the git
  provider starts without a temporary directory and without a repository.
\<close>

definition Provider :: "options \<Rightarrow> string \<Rightarrow> string \<Rightarrow> provider" where
  "Provider config dmn base_filename =
     \<lparr>opts = config, domain = dmn, filename = base_filename, temp_dir = None,
      repo = None, domain_id = None, trace = []\<rparr>"

text \<open>
  \<open>_clone(from_url, to_path, **kwargs)\<close> and \<open>_push(repo, **kwargs)\<close>.  \<open>_push\<close>
  calls \<open>repo.remote().push()\<close> without arguments and takes element 0 of what it
  returns (an \<open>IndexError\<close> on an empty list); its keyword arguments are not used
  in its body.
\<close>

definition clone :: "env \<Rightarrow> string option \<Rightarrow> string \<Rightarrow> kwargs \<Rightarrow> clone_outcome" where
  "clone e from_url to_path kw = clone_from e from_url to_path kw"

definition push :: "env \<Rightarrow> repo \<Rightarrow> kwargs \<Rightarrow> bool result \<times> event list" where
  "push e r kw =
     (case remote_push e None of
        [] \<Rightarrow> (Raised IndexError, [RemotePush None])
      | info # _ \<Rightarrow>
          (if flags info AND ERROR = ERROR then (Returned False, [RemotePush None])
           else (Returned True, [RemotePush None])))"

text \<open>
  The files of the working copy are on disk under the directory of the clone;
  \<open>open(path, "rt")\<close> succeeds on such a file and raises \<open>IOError\<close> otherwise.
  Opening for reading creates nothing.
\<close>

definition files_on_disk :: "provider \<Rightarrow> string list" where
  "files_on_disk self =
     (case (temp_dir self, repo self) of
        (Some t, Some r) \<Rightarrow> map (\<lambda>(rel, content). path_join t [rel]) (worktree r)
      | _ \<Rightarrow> [])"

definition open_rt :: "provider \<Rightarrow> string \<Rightarrow> bool" where
  "open_rt self path = (path \<in> set (files_on_disk self))"

text \<open>\<open>Provider._authenticate\<close>, in its three steps.\<close>

definition ensure_temp_dir :: "env \<Rightarrow> provider \<Rightarrow> unit result \<times> provider" where
  "ensure_temp_dir e self =
     (if temp_dir self = None then
        let self1 = self\<lparr>temp_dir := Some (mkdtemp e),
                         trace := trace self @ [TemporaryDirectory (mkdtemp e), ZoneFilename]\<rparr>
        in (case zone_filename (getcwd e) (git_path (opts self1)) (domain self1) of
              Inl err \<Rightarrow> (Raised err, self1)
            | Inr z \<Rightarrow> (Returned (), self1\<lparr>filename := path_join (mkdtemp e) [z]\<rparr>))
      else (Returned (), self))"

definition ensure_repo :: "env \<Rightarrow> provider \<Rightarrow> unit result \<times> provider" where
  "ensure_repo e self =
     (if repo self = None then
        (case temp_dir self of
           None \<Rightarrow> (Raised AttributeError, self)
         | Some t \<Rightarrow>
             let url = git_repo (opts self);
                 kw = (case git_branch (opts self) of
                         None \<Rightarrow> [] | Some branch \<Rightarrow> [(''branch'', branch)]);
                 self1 = self\<lparr>trace := trace self @ [CloneFrom url t kw]\<rparr>
             in (case clone e url t kw of
                   GitCommandError stderr \<Rightarrow> (Raised AuthenticationError, self1)
                 | Cloned r \<Rightarrow> (Returned (), self1\<lparr>repo := Some r\<rparr>)))
      else (Returned (), self))"

definition check_zone_file :: "provider \<Rightarrow> unit result \<times> provider" where
  "check_zone_file self =
     (let self1 = self\<lparr>trace := trace self @ [OpenRead (filename self)]\<rparr>
      in if open_rt self1 (filename self1)
         then (Returned (), self1\<lparr>domain_id := Some (domain self1)\<rparr>)
         else (Raised AuthenticationError, self1))"

definition authenticate :: "env \<Rightarrow> provider \<Rightarrow> unit result \<times> provider" where
  "authenticate e self =
     (case ensure_temp_dir e self of
        (Inl err, self1) \<Rightarrow> (Raised err, self1)
      | (Inr _, self1) \<Rightarrow>
          (case ensure_repo e self1 of
             (Inl err, self2) \<Rightarrow> (Raised err, self2)
           | (Inr _, self2) \<Rightarrow> check_zone_file self2))"

text \<open>\<open>Provider._commit\<close>.\<close>

definition nothing_to_commit :: "repo \<Rightarrow> bool" where
  "nothing_to_commit r =
     (case commits r of
        [] \<Rightarrow> False
      | head_commit # _ \<Rightarrow> index_diff (index r) (commit_tree head_commit) = [])"

definition commit_message :: "provider \<Rightarrow> string" where
  "commit_message self =
     (let msg = (case git_message (opts self) of
                   None \<Rightarrow> ''Update {domain} (automated commit)'' | Some m \<Rightarrow> m)
      in if str_contains ''{domain}'' msg
         then str_replace ''{domain}'' (domain self) msg else msg)"

definition commit :: "env \<Rightarrow> provider \<Rightarrow> bool result \<times> provider" where
  "commit e self =
     (case repo self of
        None \<Rightarrow> (Raised AttributeError, self)
      | Some r0 \<Rightarrow>
          let r1 = index_add_star r0;
              self1 = self\<lparr>repo := Some r1, trace := trace self @ [IndexAdd]\<rparr>
          in if nothing_to_commit r1 then (Returned True, self1)
             else
               let a = \<lparr>actor_name = git_name (opts self),
                        actor_email = git_email (opts self)\<rparr>;
                   msg = commit_message self;
                   r2 = index_commit msg a a r1;
                   kw = (case git_push_branch (opts self) of
                           None \<Rightarrow> [] | Some branch \<Rightarrow> [(''branch'', branch)]);
                   (res, evs) = push e r2 kw
               in (res, self1\<lparr>repo := Some r2,
                              trace := trace self1 @ [IndexCommit msg] @ evs\<rparr>))"

text \<open>
  The three mutating operations call the method of the same name of the base
  class \<open>LocalzoneProvider\<close> (the zone store, a parameter here: it returns a
  boolean or raises, and may change the provider) and commit when its result is
  truthy.
\<close>

type_synonym zone_op = "provider \<Rightarrow> bool result \<times> provider"

definition create_record ::
  "(string \<Rightarrow> string \<Rightarrow> string \<Rightarrow> zone_op) \<Rightarrow> env \<Rightarrow> string \<Rightarrow> string \<Rightarrow> string
     \<Rightarrow> provider \<Rightarrow> bool result \<times> provider" where
  "create_record super_create e rtype name content self =
     (case super_create rtype name content self of
        (Inl err, self1) \<Rightarrow> (Raised err, self1)
      | (Inr result, self1) \<Rightarrow>
          if result then commit e self1 else (Returned result, self1))"

definition update_record ::
  "(string \<Rightarrow> string \<Rightarrow> string \<Rightarrow> string \<Rightarrow> zone_op) \<Rightarrow> env \<Rightarrow> string \<Rightarrow> string \<Rightarrow> string
     \<Rightarrow> string \<Rightarrow> provider \<Rightarrow> bool result \<times> provider" where
  "update_record super_update e identifier rtype name content self =
     (case super_update identifier rtype name content self of
        (Inl err, self1) \<Rightarrow> (Raised err, self1)
      | (Inr result, self1) \<Rightarrow>
          if result then commit e self1 else (Returned result, self1))"

definition delete_record ::
  "(string \<Rightarrow> string \<Rightarrow> string \<Rightarrow> string \<Rightarrow> zone_op) \<Rightarrow> env \<Rightarrow> string \<Rightarrow> string \<Rightarrow> string
     \<Rightarrow> string \<Rightarrow> provider \<Rightarrow> bool result \<times> provider" where
  "delete_record super_delete e identifier rtype name content self =
     (case super_delete identifier rtype name content self of
        (Inl err, self1) \<Rightarrow> (Raised err, self1)
      | (Inr result, self1) \<Rightarrow>
          if result then commit e self1 else (Returned result, self1))"

section \<open>The DigitalOcean provider\<close>

text \<open>
  The JSON documents of the API: a record as the backend lists it, a page of the
  record collection (\<open>next_page\<close> is the link \<open>payload['links']['pages']['next']\<close>,
  \<open>None\<close> when one of the three keys is missing or the link is null), and the
  record a creation request carries.
\<close>

record api_record =
  api_type :: string
  api_name :: string
  api_data :: string
  api_id :: int

record payload =
  next_page :: "string option"
  domain_records :: "api_record list"

record new_record =
  new_type :: string
  new_name :: string
  new_data :: string

text \<open>A record as \<open>list_records\<close> returns it.\<close>

record dns_record =
  rec_type :: string
  rec_name :: string
  rec_ttl :: string
  rec_content :: string
  rec_id :: int

text \<open>
  The backend: \<open>requests.request(action, url, data=...)\<close> answers with an error
  status (\<open>None\<close>; \<open>raise_for_status\<close> then raises) or with a JSON body.  The
  attributes of the provider instance; the requests it has sent are recorded.
\<close>

type_synonym http = "string \<Rightarrow> string \<Rightarrow> new_record option \<Rightarrow> payload option"

datatype body = NoBody | Json payload

record do_provider =
  do_domain :: string
  do_domain_id :: "string option"
  api_endpoint :: string
  sent :: "(string \<times> string \<times> new_record option) list"

text \<open>
  The methods \<open>_relative_name\<close> and \<open>_full_name\<close> of the base provider, whose
  source is not part of the development, are parameters.
\<close>

record base_provider =
  relative_name :: "string \<Rightarrow> string"
  full_name :: "string \<Rightarrow> string"

text \<open>\<open>'{0}'.format(x)\<close> of an attribute that may be \<open>None\<close>.\<close>

definition format0 :: "string option \<Rightarrow> string" where
  "format0 x = (case x of None \<Rightarrow> ''None'' | Some v \<Rightarrow> v)"

text \<open>\<open>Provider._request\<close>.\<close>

definition request ::
  "http \<Rightarrow> do_provider \<Rightarrow> string \<Rightarrow> string \<Rightarrow> new_record option \<Rightarrow> body result \<times> do_provider" where
  "request h self action url data =
     (let url1 = (if \<not> startswith url (api_endpoint self) then api_endpoint self @ url else url);
          self1 = self\<lparr>sent := sent self @ [(action, url1, data)]\<rparr>
      in (case h action url1 data of
            None \<Rightarrow> (Raised HTTPError, self1)
          | Some js \<Rightarrow> (Returned (if action = ''DELETE'' then NoBody else Json js), self1)))"

text \<open>
  Modelled from the spec: the methods \<open>_get\<close> and \<open>_post\<close> of the base provider,
  whose source is not part of the development; they issue a \<open>GET\<close> and a \<open>POST\<close>
  through \<open>_request\<close>.
\<close>

definition get :: "http \<Rightarrow> do_provider \<Rightarrow> string \<Rightarrow> body result \<times> do_provider" where
  "get h self url = request h self ''GET'' url None"

definition post ::
  "http \<Rightarrow> do_provider \<Rightarrow> string \<Rightarrow> new_record \<Rightarrow> body result \<times> do_provider" where
  "post h self url data = request h self ''POST'' url (Some data)"

text \<open>
  \<open>Provider.list_records\<close>.  The loop follows the links to the next page for as
  long as the backend supplies one, so it need not end: \<open>None\<close> stands for a call
  that does not return.
\<close>

definition processed_record :: "do_provider \<Rightarrow> api_record \<Rightarrow> dns_record" where
  "processed_record self r =
     \<lparr>rec_type = api_type r,
      rec_name = api_name r @ ''.'' @ format0 (do_domain_id self),
      rec_ttl = [],
      rec_content = api_data r,
      rec_id = api_id r\<rparr>"

partial_function (option) fetch_pages ::
  "http \<Rightarrow> do_provider \<Rightarrow> string option \<Rightarrow> dns_record list
     \<Rightarrow> (dns_record list result \<times> do_provider) option" where
  "fetch_pages h self next records =
     (case next of
        None \<Rightarrow> Some (Returned records, self)
      | Some url \<Rightarrow>
          (case get h self url of
             (Inl err, self1) \<Rightarrow> Some (Raised err, self1)
           | (Inr NoBody, self1) \<Rightarrow> Some (Raised TypeError, self1)
           | (Inr (Json js), self1) \<Rightarrow>
               fetch_pages h self1 (next_page js)
                 (records @ map (processed_record self1) (domain_records js))))"

declare fetch_pages.simps [code]

definition truthy :: "string option \<Rightarrow> bool" where
  "truthy x = (case x of None \<Rightarrow> False | Some v \<Rightarrow> v \<noteq> [])"

definition filter_records ::
  "base_provider \<Rightarrow> string option \<Rightarrow> string option \<Rightarrow> string option \<Rightarrow> dns_record list
     \<Rightarrow> dns_record list" where
  "filter_records base rtype name content records =
     (let records1 = (if truthy rtype
                      then filter (\<lambda>r. Some (rec_type r) = rtype) records else records);
          records2 = (if truthy name
                      then filter (\<lambda>r. Some (rec_name r) = map_option (full_name base) name)
                             records1
                      else records1);
          records3 = (if truthy content
                      then filter (\<lambda>r. Some (lower (rec_content r)) = map_option lower content)
                             records2
                      else records2)
      in records3)"

definition list_records ::
  "http \<Rightarrow> base_provider \<Rightarrow> do_provider \<Rightarrow> string option \<Rightarrow> string option \<Rightarrow> string option
     \<Rightarrow> (dns_record list result \<times> do_provider) option" where
  "list_records h base self rtype name content =
     (case fetch_pages h self
             (Some (''/domains/'' @ format0 (do_domain_id self) @ ''/records'')) [] of
        None \<Rightarrow> None
      | Some (Inl err, self1) \<Rightarrow> Some (Raised err, self1)
      | Some (Inr records, self1) \<Rightarrow>
          Some (Returned (filter_records base rtype name content records), self1))"

text \<open>
  \<open>Provider.create_record\<close> of the DigitalOcean provider (\<open>create_record\<close> is
  the operation of the git provider above).
\<close>

definition do_create_record ::
  "http \<Rightarrow> base_provider \<Rightarrow> do_provider \<Rightarrow> string \<Rightarrow> string \<Rightarrow> string
     \<Rightarrow> (bool result \<times> do_provider) option" where
  "do_create_record h base self rtype name content =
     (case list_records h base self (Some rtype) (Some name) (Some content) of
        None \<Rightarrow> None
      | Some (Inl err, self1) \<Rightarrow> Some (Raised err, self1)
      | Some (Inr found, self1) \<Rightarrow>
          if length found = 0 then
            let record = \<lparr>new_type = rtype, new_name = relative_name base name,
                          new_data = content\<rparr>;
                record1 = (if rtype = ''CNAME''
                           then record\<lparr>new_data := rstrip (new_data record) ''.'' @ ''.''\<rparr>
                           else record)
            in (case post h self1 (''/domains/'' @ format0 (do_domain_id self1) @ ''/records'')
                       record1 of
                  (Inl err, self2) \<Rightarrow> Some (Raised err, self2)
                | (Inr _, self2) \<Rightarrow> Some (Returned True, self2))
          else Some (Returned True, self1))"

section \<open>Auxiliary notions for the properties\<close>

text \<open>
  A plain component is a file or directory name: not empty, not \<open>.\<close>, not \<open>..\<close>,
  and without a slash.
\<close>

definition plain_component :: "string \<Rightarrow> bool" where
  "plain_component c = (c \<noteq> [] \<and> c \<noteq> ''.'' \<and> c \<noteq> ''..'' \<and> CHR ''/'' \<notin> set c)"

text \<open>
  The history of the repository of a provider, and the calls of one kind in a
  trace.
\<close>

definition history :: "provider \<Rightarrow> commit_obj list" where
  "history self = (case repo self of None \<Rightarrow> [] | Some r \<Rightarrow> commits r)"

definition clone_calls :: "event list \<Rightarrow> event list" where
  "clone_calls evs = filter (\<lambda>ev. case ev of CloneFrom u t kw \<Rightarrow> True | _ \<Rightarrow> False) evs"

definition tempdir_calls :: "event list \<Rightarrow> event list" where
  "tempdir_calls evs =
     filter (\<lambda>ev. case ev of TemporaryDirectory t \<Rightarrow> True | _ \<Rightarrow> False) evs"

definition path_calls :: "event list \<Rightarrow> event list" where
  "path_calls evs = filter (\<lambda>ev. ev = ZoneFilename) evs"

text \<open>
  The clone raised \<open>GitCommandError\<close>.
\<close>

definition clone_fails :: "clone_outcome \<Rightarrow> bool" where
  "clone_fails out = (case out of GitCommandError stderr \<Rightarrow> True | Cloned r \<Rightarrow> False)"

text \<open>
  A sequence of \<open>_authenticate\<close> calls on one instance, each in the outside world
  of its time; the caller goes on after a call that raised.
\<close>

definition authenticate_all :: "env list \<Rightarrow> provider \<Rightarrow> provider" where
  "authenticate_all es self = foldl (\<lambda>s e. snd (authenticate e s)) self es"

text \<open>
  For the DigitalOcean provider: the listing of the records ends within \<open>n\<close>
  pages (the backend stops supplying a next page, or a request fails), and the
  records that the creation requests among the sent requests carry.
\<close>

fun pages_within :: "nat \<Rightarrow> http \<Rightarrow> do_provider \<Rightarrow> string option \<Rightarrow> bool" where
  "pages_within n h self None = True"
| "pages_within 0 h self (Some url) = False"
| "pages_within (Suc n) h self (Some url) =
     (case get h self url of
        (Inl err, self1) \<Rightarrow> True
      | (Inr NoBody, self1) \<Rightarrow> True
      | (Inr (Json js), self1) \<Rightarrow> pages_within n h self1 (next_page js))"

definition posted :: "(string \<times> string \<times> new_record option) list \<Rightarrow> new_record list" where
  "posted reqs =
     concat (map (\<lambda>(action, url, data).
                    case data of
                      None \<Rightarrow> []
                    | Some r \<Rightarrow> if action = ''POST'' then [r] else []) reqs)"

section \<open>A concrete session\<close>

text \<open>
  An upstream repository with one commit holding the zone file of
  \<open>example.com\<close>; a provider configured to pull \<open>main\<close> and to push \<open>deploy\<close>;
  an outside world whose push answers with the given flags; the provider after a
  successful \<open>_authenticate\<close>; and a zone store whose operations rewrite the
  zone file and return a given result.
\<close>

definition example_actor :: actor where
  "example_actor = \<lparr>actor_name = Some ''John Doe'', actor_email = Some ''john@example.com''\<rparr>"

definition example_upstream :: repo where
  "example_upstream =
     \<lparr>worktree = [(''example.com'', ''zone v1'')],
      index = [(''example.com'', ''zone v1'')],
      commits = [\<lparr>message = ''New domain'', author = example_actor,
                  committer = example_actor,
                  commit_tree = [(''example.com'', ''zone v1'')]\<rparr>]\<rparr>"

definition example_options :: options where
  "example_options =
     \<lparr>git_repo = Some ''https://git.example.org/zones.git'', git_path = None,
      git_branch = Some ''main'', git_push_branch = Some ''deploy'',
      git_message = None, git_name = Some ''lexicon'', git_email = Some ''dns@example.org''\<rparr>"

definition example_env :: "int \<Rightarrow> env" where
  "example_env push_flags =
     \<lparr>mkdtemp = ''/tmp/dns-lexicon-git-x1'',
      getcwd = ''/home/user'',
      clone_from = (\<lambda>url to_path kw.
         if url = Some ''https://git.example.org/zones.git'' then Cloned example_upstream
         else GitCommandError ''repository not found''),
      remote_push = (\<lambda>refspec. [\<lparr>flags = push_flags, summary = ''main -> main''\<rparr>])\<rparr>"

definition example_ready :: provider where
  "example_ready =
     \<lparr>opts = example_options, domain = ''example.com'',
      filename = ''/tmp/dns-lexicon-git-x1/example.com'',
      temp_dir = Some ''/tmp/dns-lexicon-git-x1'', repo = Some example_upstream,
      domain_id = Some ''example.com'', trace = []\<rparr>"

definition example_write :: "string \<Rightarrow> bool \<Rightarrow> zone_op" where
  "example_write content result self =
     (Returned result,
      (case repo self of
         None \<Rightarrow> self
       | Some r \<Rightarrow> self\<lparr>repo := Some (r\<lparr>worktree := [(''example.com'', content)]\<rparr>)\<rparr>))"

definition example_zone_create :: "string \<Rightarrow> string \<Rightarrow> string \<Rightarrow> zone_op" where
  "example_zone_create rtype name content =
     example_write (''zone v1; '' @ name @ '' '' @ rtype @ '' '' @ content) True"

definition example_zone_update :: "string \<Rightarrow> string \<Rightarrow> string \<Rightarrow> string \<Rightarrow> zone_op" where
  "example_zone_update identifier rtype name content =
     example_write (''zone v1; '' @ name @ '' '' @ rtype @ '' '' @ content) True"

definition example_zone_delete :: "string \<Rightarrow> string \<Rightarrow> string \<Rightarrow> string \<Rightarrow> zone_op" where
  "example_zone_delete identifier rtype name content = example_write ''zone v1'' False"

text \<open>
  The same outside world with an unreachable remote: every clone fails.
\<close>

definition example_env_down :: env where
  "example_env_down =
     (example_env 256)\<lparr>clone_from :=
        (\<lambda>url to_path kw. GitCommandError ''could not resolve host'')\<rparr>"

text \<open>
  A backend of the DigitalOcean provider: the records of \<open>example.com\<close> come in
  two pages, and every request is answered.
\<close>

definition example_http :: http where
  "example_http action url data =
     (if action = ''GET'' \<and> url = ''https://api.digitalocean.com/v2/domains/example.com/records''
      then Some \<lparr>next_page =
                   Some ''https://api.digitalocean.com/v2/domains/example.com/records?page=2'',
                 domain_records =
                   [\<lparr>api_type = ''A'', api_name = ''www'', api_data = ''127.0.0.1'',
                     api_id = 1\<rparr>]\<rparr>
      else if action = ''GET''
              \<and> url = ''https://api.digitalocean.com/v2/domains/example.com/records?page=2''
      then Some \<lparr>next_page = None,
                 domain_records =
                   [\<lparr>api_type = ''TXT'', api_name = ''_acme'', api_data = ''Challenge'',
                     api_id = 2\<rparr>]\<rparr>
      else Some \<lparr>next_page = None, domain_records = []\<rparr>)"

definition example_do :: do_provider where
  "example_do =
     \<lparr>do_domain = ''example.com'', do_domain_id = Some ''example.com'',
      api_endpoint = ''https://api.digitalocean.com/v2'', sent = []\<rparr>"

definition example_base :: base_provider where
  "example_base =
     \<lparr>relative_name = (\<lambda>name. name), full_name = (\<lambda>name. name @ ''.example.com'')\<rparr>"

section \<open>Properties of the zone-file path\<close>

lemma str_split_nonempty: "str_split sep s \<noteq> []"
  by (induction s) (auto split: list.splits)

lemma str_split_no_sep: "c \<in> set (str_split sep s) \<Longrightarrow> sep \<notin> set c"
proof (induction s arbitrary: c)
  case Nil
  then show ?case by simp
next
  case (Cons a s)
  then show ?case
    by (cases "str_split sep s") (auto split: if_splits)
qed

lemma normpath_step_plain:
  assumes "k \<noteq> 0" "list_all plain_component acc" "CHR ''/'' \<notin> set c"
  shows "list_all plain_component (normpath_step k acc c)"
proof -
  have "list_all plain_component (butlast acc)"
    using assms(2) by (auto simp: list_all_iff dest: in_set_butlastD)
  moreover have "acc \<noteq> [] \<Longrightarrow> last acc \<noteq> ''..''"
    using assms(2) last_in_set[of acc] by (auto simp: list_all_iff plain_component_def)
  ultimately show ?thesis
    using assms by (auto simp: normpath_step_def plain_component_def)
qed

lemma normpath_fold_plain:
  "k \<noteq> 0 \<Longrightarrow> list_all plain_component acc \<Longrightarrow> \<forall>c \<in> set cs. CHR ''/'' \<notin> set c
   \<Longrightarrow> list_all plain_component (foldl (normpath_step k) acc cs)"
  by (induction cs arbitrary: acc) (auto simp: normpath_step_plain)

lemma str_split_join:
  "xs \<noteq> [] \<Longrightarrow> \<forall>c \<in> set xs. sep \<notin> set c \<Longrightarrow> str_split sep (str_join [sep] xs) = xs"
proof (induction "[sep]" xs rule: str_join.induct)
  case 1
  then show ?case by simp
next
  case (2 x)
  then show ?case by (induction x) auto
next
  case (3 x y ys)
  then have IH: "str_split sep (str_join [sep] (y # ys)) = y # ys" by simp
  from 3 have "sep \<notin> set x" by simp
  then show ?case using IH by (induction x) auto
qed

lemma startswith_single: "startswith s [c] = (s \<noteq> [] \<and> hd s = c)"
  by (cases s) (auto simp: startswith_def)

lemma endswith_single: "endswith s [c] = (s \<noteq> [] \<and> last s = c)"
  by (cases s rule: rev_cases) (auto simp: endswith_def)

lemma join_step_plain:
  "acc \<noteq> [] \<Longrightarrow> last acc \<noteq> CHR ''/'' \<Longrightarrow> plain_component b
   \<Longrightarrow> join_step acc b = acc @ ''/'' @ b"
  by (cases b) (auto simp: join_step_def startswith_single endswith_single plain_component_def)

lemma path_join_plain:
  "acc \<noteq> [] \<Longrightarrow> last acc \<noteq> CHR ''/'' \<Longrightarrow> list_all plain_component rs
   \<Longrightarrow> path_join acc rs = acc @ concat (map (\<lambda>b. ''/'' @ b) rs)"
proof (induction rs arbitrary: acc)
  case Nil
  then show ?case by (simp add: path_join_def)
next
  case (Cons b rs)
  then have pb: "plain_component b" by simp
  then have nb: "b \<noteq> []" and sb: "CHR ''/'' \<notin> set b"
    by (auto simp: plain_component_def)
  from nb have "last b \<in> set b" by (rule last_in_set)
  with sb have lb: "last b \<noteq> CHR ''/''" by metis
  have step: "join_step acc b = acc @ ''/'' @ b"
    using Cons.prems(1,2) pb by (rule join_step_plain)
  have "path_join (acc @ ''/'' @ b) rs = (acc @ ''/'' @ b) @ concat (map (\<lambda>b. ''/'' @ b) rs)"
    using Cons.prems(3) lb nb by (intro Cons.IH) auto
  then show ?case using step by (simp add: path_join_def)
qed

lemma str_join_concat:
  "str_join sep (r # rs) = r @ concat (map (\<lambda>b. sep @ b) rs)"
  by (induction rs arbitrary: r) auto

lemma path_join_root:
  "path_join ''/'' [f] = (if startswith f ''/'' then f else ''/'' @ f)"
  by (simp add: path_join_def join_step_def endswith_def)

lemma split_leading_slashes:
  "filter (\<lambda>x. x \<noteq> []) (str_split CHR ''/'' (replicate k CHR ''/'' @ s))
   = filter (\<lambda>x. x \<noteq> []) (str_split CHR ''/'' s)"
  by (induction k) auto

lemma split_join_plain:
  "list_all plain_component N \<Longrightarrow>
   filter (\<lambda>x. x \<noteq> []) (str_split CHR ''/'' (str_join ''/'' N)) = N"
proof (cases "N = []")
  case True
  then show ?thesis by simp
next
  case False
  assume pl: "list_all plain_component N"
  then have "\<forall>c \<in> set N. CHR ''/'' \<notin> set c"
    by (auto simp: list_all_iff plain_component_def)
  with False have "str_split CHR ''/'' (str_join ''/'' N) = N"
    using str_split_join[of N "CHR ''/''"] by simp
  moreover have "filter (\<lambda>x. x \<noteq> []) N = N"
    using pl by (auto simp: list_all_iff plain_component_def filter_id_conv)
  ultimately show ?thesis by simp
qed

lemma initial_slashes_abs: "isabs p \<Longrightarrow> initial_slashes_of p \<noteq> 0"
  by (simp add: initial_slashes_of_def isabs_def)

lemma normpath_abs:
  assumes "isabs p"
  shows "\<exists>k N. k \<noteq> 0 \<and> list_all plain_component N
           \<and> normpath p = replicate k CHR ''/'' @ str_join ''/'' N"
proof -
  let ?k = "initial_slashes_of p"
  let ?N = "foldl (normpath_step ?k) [] (str_split CHR ''/'' p)"
  have k: "?k \<noteq> 0" using assms by (rule initial_slashes_abs)
  have pl: "list_all plain_component ?N"
    using k by (intro normpath_fold_plain) (auto dest: str_split_no_sep)
  have ne: "p \<noteq> []" using assms by (auto simp: isabs_def startswith_def)
  have "replicate ?k CHR ''/'' @ str_join ''/'' ?N \<noteq> []" using k by simp
  then have "normpath p = replicate ?k CHR ''/'' @ str_join ''/'' ?N"
    using k ne by (simp add: normpath_def Let_def)
  with k pl show ?thesis by blast
qed

lemma abspath_root: "abspath cwd ''/'' = ''/''"
  by (simp add: abspath_def isabs_def startswith_def normpath_def initial_slashes_of_def
      normpath_step_def)

lemma relpath_root:
  assumes "isabs p"
  shows "\<exists>N. list_all plain_component N
           \<and> relpath cwd p ''/'' = Returned (if N = [] then ''.'' else str_join ''/'' N)"
proof -
  from normpath_abs[OF assms] obtain k N where
    k: "k \<noteq> 0" and pl: "list_all plain_component N"
    and np: "normpath p = replicate k CHR ''/'' @ str_join ''/'' N" by blast
  have ne: "p \<noteq> []" using assms by (auto simp: isabs_def startswith_def)
  have ab: "abspath cwd p = replicate k CHR ''/'' @ str_join ''/'' N"
    using assms np by (simp add: abspath_def)
  have pathlist: "filter (\<lambda>x. x \<noteq> []) (str_split CHR ''/'' (abspath cwd p)) = N"
    unfolding ab split_leading_slashes using pl by (rule split_join_plain)
  have startlist: "filter (\<lambda>x. x \<noteq> []) (str_split CHR ''/'' (abspath cwd ''/'')) = []"
    by (simp add: abspath_root)
  have rel: "relpath cwd p ''/'' =
      (case N of [] \<Rightarrow> Returned ''.'' | r # rs \<Rightarrow> Returned (path_join r rs))"
    using ne by (simp add: relpath_def Let_def pathlist startlist del: str_split.simps)
  have "relpath cwd p ''/'' = Returned (if N = [] then ''.'' else str_join ''/'' N)"
  proof (cases N)
    case Nil
    then show ?thesis using rel by simp
  next
    case (Cons r rs)
    then have pr: "plain_component r" and prs: "list_all plain_component rs"
      using pl by auto
    then have nr: "r \<noteq> []" and sr: "CHR ''/'' \<notin> set r"
      by (auto simp: plain_component_def)
    from nr have "last r \<in> set r" by (rule last_in_set)
    with sr have lr: "last r \<noteq> CHR ''/''" by metis
    have "path_join r rs = str_join ''/'' (r # rs)"
      using path_join_plain[OF nr lr prs] by (simp add: str_join_concat)
    then show ?thesis using rel Cons by simp
  qed
  with pl show ?thesis by blast
qed

lemma zone_filename_shape:
  "\<exists>N. list_all plain_component N
     \<and> zone_filename cwd tmpl dmn
         = Returned (if N = [] then ''.'' else str_join ''/'' N)"
proof -
  have "isabs (path_join ''/'' [f])" for f
    by (simp add: path_join_root isabs_def) (simp add: startswith_def)
  then show ?thesis
    unfolding zone_filename_def Let_def by (intro relpath_root)
qed

text \<open>
  Claim C5.  For every template (configured or not), every domain and every
  current directory, \<open>_zone_filename\<close> returns a path none of whose \<open>/\<close>-separated
  segments is \<open>..\<close> and which is not absolute, so it names nothing above the root
  of the repository; in particular the template \<open>../../../foo\<close> with the domain
  \<open>example.com\<close> gives \<open>foo/example.com\<close>, and the template \<open>foo/../..\<close> gives
  \<open>example.com\<close>.
\<close>

theorem zone_filename_stays_under_root:
  "(\<exists>r. zone_filename cwd tmpl dmn = Returned r
        \<and> ''..'' \<notin> set (str_split CHR ''/'' r) \<and> \<not> isabs r)
   \<and> zone_filename cwd (Some ''../../../foo'') ''example.com'' = Returned ''foo/example.com''
   \<and> zone_filename cwd (Some ''foo/../..'') ''example.com'' = Returned ''example.com''"
proof -
  obtain N where pl: "list_all plain_component N"
    and z: "zone_filename cwd tmpl dmn = Returned (if N = [] then ''.'' else str_join ''/'' N)"
    using zone_filename_shape by blast
  let ?r = "if N = [] then ''.'' else str_join ''/'' N"
  have seg: "''..'' \<notin> set (str_split CHR ''/'' ?r)"
  proof (cases "N = []")
    case True
    then show ?thesis by simp
  next
    case False
    have "\<forall>c \<in> set N. CHR ''/'' \<notin> set c"
      using pl by (auto simp: list_all_iff plain_component_def)
    with False have "str_split CHR ''/'' (str_join ''/'' N) = N"
      using str_split_join[of N "CHR ''/''"] by simp
    moreover have "''..'' \<notin> set N"
      using pl by (auto simp: list_all_iff plain_component_def)
    ultimately show ?thesis using False by simp
  qed
  have rel: "\<not> isabs ?r"
  proof (cases N)
    case Nil
    then show ?thesis by (simp add: isabs_def startswith_def)
  next
    case (Cons c cs)
    then have "plain_component c" using pl by simp
    then have "c \<noteq> []" "hd c \<noteq> CHR ''/''"
      by (cases c; auto simp: plain_component_def)+
    then show ?thesis
      using Cons by (simp add: isabs_def startswith_single str_join_concat)
  qed
  have c1: "zone_filename cwd (Some ''../../../foo'') ''example.com'' = Returned ''foo/example.com''"
    by code_simp
  have c2: "zone_filename cwd (Some ''foo/../..'') ''example.com'' = Returned ''example.com''"
    by code_simp
  from z seg rel c1 c2 show ?thesis by blast
qed

theorem zone_filename_stays_under_root_witness:
  "zone_filename ''/srv/dns'' (Some ''../../etc/'') ''../passwd'' = Returned ''passwd''
   \<and> ''..'' \<notin> set (str_split CHR ''/'' ''passwd'') \<and> \<not> isabs ''passwd''"
proof -
  have e: "zone_filename ''/srv/dns'' (Some ''../../etc/'') ''../passwd'' = Returned ''passwd''"
    by code_simp
  from zone_filename_stays_under_root [of "''/srv/dns''" "Some ''../../etc/''" "''../passwd''"]
  show ?thesis unfolding e by simp
qed

section \<open>Properties of the placeholder substitution\<close>

lemma str_replace_absent:
  "\<not> str_contains old s \<Longrightarrow> str_replace old new s = s"
  by (induction old new s rule: str_replace.induct) auto

lemma placeholder_nth:
  "0 < n \<Longrightarrow> n < 8 \<Longrightarrow> ''{domain}'' ! n \<noteq> CHR ''{''"
proof -
  assume "0 < n" "n < 8"
  then have "n = 1 \<or> n = 2 \<or> n = 3 \<or> n = 4 \<or> n = 5 \<or> n = 6 \<or> n = 7" by arith
  then show ?thesis by auto
qed

lemma placeholder_no_early_match:
  assumes x: "x \<noteq> []" and ns: "\<not> startswith x ''{domain}''"
  shows "\<not> startswith (x @ ''{domain}'' @ rest) ''{domain}''"
proof
  assume st: "startswith (x @ ''{domain}'' @ rest) ''{domain}''"
  have len: "length ''{domain}'' = 8" by simp
  from st have tk: "take 8 (x @ ''{domain}'' @ rest) = ''{domain}''"
    unfolding startswith_def len .
  from ns have ns8: "take 8 x \<noteq> ''{domain}''"
    unfolding startswith_def len .
  show False
  proof (cases "8 \<le> length x")
    case True
    then have "take 8 (x @ ''{domain}'' @ rest) = take 8 x" by simp
    then show False using tk ns8 by simp
  next
    case False
    then have lt: "length x < 8" by simp
    have "take 8 (x @ ''{domain}'' @ rest) ! length x = ''{domain}'' ! length x"
      using tk by simp
    moreover have "take 8 (x @ ''{domain}'' @ rest) ! length x = CHR ''{''"
      using lt by (simp add: nth_append)
    ultimately have "''{domain}'' ! length x = CHR ''{''" by simp
    moreover have "0 < length x" using x by simp
    ultimately show False using placeholder_nth lt by blast
  qed
qed

lemma str_replace_first:
  "\<not> str_contains ''{domain}'' x \<Longrightarrow>
   str_replace ''{domain}'' new (x @ ''{domain}'' @ rest)
   = x @ new @ str_replace ''{domain}'' new rest"
proof (induction x)
  case Nil
  then show ?case by (simp add: startswith_def)
next
  case (Cons c cs)
  then have ns: "\<not> startswith (c # cs) ''{domain}''" and nc: "\<not> str_contains ''{domain}'' cs"
    by auto
  have "\<not> startswith ((c # cs) @ ''{domain}'' @ rest) ''{domain}''"
    using ns by (intro placeholder_no_early_match) auto
  then have "str_replace ''{domain}'' new ((c # cs) @ ''{domain}'' @ rest)
             = c # str_replace ''{domain}'' new (cs @ ''{domain}'' @ rest)"
    by (simp del: append.simps add: append_Cons)
  then show ?case using Cons.IH[OF nc] by simp
qed

lemma str_replace_pieces:
  "list_all (\<lambda>p. \<not> str_contains ''{domain}'' p) pieces \<Longrightarrow>
   str_replace ''{domain}'' new (str_join ''{domain}'' pieces) = str_join new pieces"
proof (induction "''{domain}''" pieces rule: str_join.induct)
  case 1
  then show ?case by simp
next
  case (2 x)
  then show ?case by (simp add: str_replace_absent)
next
  case (3 x y ys)
  then have "str_replace ''{domain}'' new (str_join ''{domain}'' (y # ys)) = str_join new (y # ys)"
    by simp
  moreover have "\<not> str_contains ''{domain}'' x" using 3 by simp
  ultimately show ?case
    using str_replace_first[of x new "str_join ''{domain}'' (y # ys)"] by simp
qed

lemma str_split_no_sep_id: "sep \<notin> set s \<Longrightarrow> str_split sep s = [s]"
  by (induction s) auto

lemma relpath_plain:
  assumes "plain_component d"
  shows "relpath cwd (CHR ''/'' # d) ''/'' = Returned d"
proof -
  from assms have d: "d \<noteq> []" "d \<noteq> ''.''" "d \<noteq> ''..''" "CHR ''/'' \<notin> set d"
    by (auto simp: plain_component_def)
  then have hd: "hd d \<noteq> CHR ''/''" by (cases d) auto
  have sp: "str_split CHR ''/'' (CHR ''/'' # d) = [[], d]"
    using d(4) by (simp add: str_split_no_sep_id)
  have isl: "initial_slashes_of (CHR ''/'' # d) = 1"
    using d(1) hd by (cases d) (auto simp: initial_slashes_of_def startswith_def)
  have np: "normpath (CHR ''/'' # d) = CHR ''/'' # d"
    using d by (simp add: normpath_def Let_def sp isl normpath_step_def del: str_split.simps)
  have ab: "abspath cwd (CHR ''/'' # d) = CHR ''/'' # d"
    using np by (simp add: abspath_def isabs_def startswith_def)
  have sl: "str_split CHR ''/'' ''/'' = [[], []]" by simp
  show ?thesis
    using d by (simp add: relpath_def Let_def ab abspath_root sp sl path_join_def
        del: str_split.simps)
qed

lemma path_join_empty: "path_join [] [d] = d"
  by (simp add: path_join_def join_step_def)

text \<open>
  Claim C6.  The path that \<open>_zone_filename\<close> normalises against the root comes
  from one of three branches that exclude each other.  When the template is not
  configured or empty, it is the domain itself (and for a domain that is a plain
  file name the normalised result is the domain, too).  When the template contains
  \<open>{domain}\<close>, it is the template with \<open>{domain}\<close> replaced, and the domain is
  not joined to it; every occurrence is replaced: a template made of pieces
  without the placeholder, separated by \<open>{domain}\<close>, becomes the same pieces
  separated by the domain.  Otherwise it is the join of the template and the
  domain.
\<close>

theorem zone_filename_three_branches:
  "(tmpl = None \<or> tmpl = Some [] \<longrightarrow>
      zone_filename cwd tmpl dmn = relpath cwd (path_join ''/'' [dmn]) ''/''
      \<and> (plain_component dmn \<longrightarrow> zone_filename cwd tmpl dmn = Returned dmn))
   \<and> (str_contains ''{domain}'' ta \<longrightarrow>
      zone_filename cwd (Some ta) dmn
        = relpath cwd (path_join ''/'' [str_replace ''{domain}'' dmn ta]) ''/'')
   \<and> (list_all (\<lambda>p. \<not> str_contains ''{domain}'' p) pieces \<longrightarrow>
      str_replace ''{domain}'' dmn (str_join ''{domain}'' pieces) = str_join dmn pieces)
   \<and> (tb \<noteq> [] \<and> \<not> str_contains ''{domain}'' tb \<longrightarrow>
      zone_filename cwd (Some tb) dmn
        = relpath cwd (path_join ''/'' [path_join tb [dmn]]) ''/'')"
proof (intro conjI impI)
  assume e: "tmpl = None \<or> tmpl = Some []"
  then show a: "zone_filename cwd tmpl dmn = relpath cwd (path_join ''/'' [dmn]) ''/''"
    by (auto simp: zone_filename_def path_join_empty)
  assume "plain_component dmn"
  then have "hd dmn \<noteq> CHR ''/''" "dmn \<noteq> []" "relpath cwd (CHR ''/'' # dmn) ''/'' = Returned dmn"
    by (cases dmn; auto simp: plain_component_def relpath_plain)+
  then show "zone_filename cwd tmpl dmn = Returned dmn"
    unfolding a by (simp add: path_join_root startswith_single)
next
  assume "str_contains ''{domain}'' ta"
  then show "zone_filename cwd (Some ta) dmn
        = relpath cwd (path_join ''/'' [str_replace ''{domain}'' dmn ta]) ''/''"
    by (simp add: zone_filename_def)
next
  assume "list_all (\<lambda>p. \<not> str_contains ''{domain}'' p) pieces"
  then show "str_replace ''{domain}'' dmn (str_join ''{domain}'' pieces) = str_join dmn pieces"
    by (rule str_replace_pieces)
next
  assume "tb \<noteq> [] \<and> \<not> str_contains ''{domain}'' tb"
  then show "zone_filename cwd (Some tb) dmn
        = relpath cwd (path_join ''/'' [path_join tb [dmn]]) ''/''"
    by (simp add: zone_filename_def)
qed

theorem zone_filename_three_branches_witness:
  "zone_filename ''/'' None ''example.com'' = Returned ''example.com''
   \<and> zone_filename ''/'' (Some ''{domain}/db.{domain}'') ''example.com''
       = relpath ''/'' (path_join ''/'' [''example.com/db.example.com'']) ''/''
   \<and> str_replace ''{domain}'' ''example.com'' ''{domain}/db.{domain}'' = ''example.com/db.example.com''
   \<and> zone_filename ''/'' (Some ''zones'') ''example.com''
       = relpath ''/'' (path_join ''/'' [''zones/example.com'']) ''/''"
proof -
  have p: "plain_component ''example.com''"
    by (simp add: plain_component_def)
  have c: "str_contains ''{domain}'' ''{domain}/db.{domain}''"
    by (simp add: startswith_def)
  have n: "''zones'' \<noteq> [] \<and> \<not> str_contains ''{domain}'' ''zones''"
    by (simp add: startswith_def)
  have l: "list_all (\<lambda>p. \<not> str_contains ''{domain}'' p) [[], ''/db.'', []]"
    by (simp add: startswith_def)
  have j: "str_join ''{domain}'' [[], ''/db.'', []] = ''{domain}/db.{domain}''"
    "str_join ''example.com'' [[], ''/db.'', []] = ''example.com/db.example.com''"
    "path_join ''zones'' [''example.com''] = ''zones/example.com''"
    by (simp_all add: path_join_def join_step_def startswith_def endswith_def)
  note T = zone_filename_three_branches
         [where tmpl = None and ta = "''{domain}/db.{domain}''" and pieces = "[[], ''/db.'', []]"
            and tb = "''zones''" and cwd = "''/''" and dmn = "''example.com''"]
  from T p have w1: "zone_filename ''/'' None ''example.com'' = Returned ''example.com''"
    by blast
  from T l have "str_replace ''{domain}'' ''example.com'' (str_join ''{domain}'' [[], ''/db.'', []])
                 = str_join ''example.com'' [[], ''/db.'', []]"
    by blast
  then have w3: "str_replace ''{domain}'' ''example.com'' ''{domain}/db.{domain}''
                 = ''example.com/db.example.com''"
    unfolding j .
  from T c have "zone_filename ''/'' (Some ''{domain}/db.{domain}'') ''example.com''
       = relpath ''/'' (path_join ''/''
           [str_replace ''{domain}'' ''example.com'' ''{domain}/db.{domain}'']) ''/''"
    by blast
  then have w2: "zone_filename ''/'' (Some ''{domain}/db.{domain}'') ''example.com''
       = relpath ''/'' (path_join ''/'' [''example.com/db.example.com'']) ''/''"
    unfolding w3 .
  from T n have "zone_filename ''/'' (Some ''zones'') ''example.com''
       = relpath ''/'' (path_join ''/'' [path_join ''zones'' [''example.com'']]) ''/''"
    by blast
  then have w4: "zone_filename ''/'' (Some ''zones'') ''example.com''
       = relpath ''/'' (path_join ''/'' [''zones/example.com'']) ''/''"
    unfolding j .
  from w1 w2 w3 w4 show ?thesis by (intro conjI)
qed

section \<open>Properties of committing and pushing\<close>

lemma index_add_star_fields [simp]:
  "worktree (index_add_star r) = worktree r" "commits (index_add_star r) = commits r"
  by (simp_all add: index_add_star_def)

lemma map_of_index_add_star:
  "map_of (index (index_add_star r))
   = map_of (index r) ++ map_of (filter (\<lambda>(path, content). glob_star path) (worktree r))"
  by (simp add: index_add_star_def merge_conv')

lemma map_add_twice: "(m ++ n) ++ n = m ++ n"
  by (rule ext) (simp add: map_add_def split: option.split)

lemma index_add_star_twice:
  "map_of (index (index_add_star (index_add_star r))) = map_of (index (index_add_star r))"
  by (simp only: map_of_index_add_star index_add_star_fields map_add_twice)

lemma index_diff_empty: "index_diff idx t = [] \<longleftrightarrow> map_of idx = map_of t"
proof
  assume e: "index_diff idx t = []"
  show "map_of idx = map_of t"
  proof
    fix path
    show "map_of idx path = map_of t path"
    proof (cases "path \<in> fst ` set idx \<union> fst ` set t")
      case True
      then show ?thesis using e by (auto simp: index_diff_def filter_empty_conv)
    next
      case False
      then have "map_of idx path = None" "map_of t path = None"
        by (simp_all add: map_of_eq_None_iff)
      then show ?thesis by simp
    qed
  qed
next
  assume "map_of idx = map_of t"
  then show "index_diff idx t = []" by (simp add: index_diff_def)
qed

lemma nothing_to_commit_iff:
  "nothing_to_commit r
   \<longleftrightarrow> (\<exists>c cs. commits r = c # cs \<and> map_of (index r) = map_of (commit_tree c))"
  by (cases "commits r") (simp_all add: nothing_to_commit_def index_diff_empty)

lemma nothing_to_commit_again:
  "nothing_to_commit (index_add_star r) \<Longrightarrow> nothing_to_commit (index_add_star (index_add_star r))"
  by (simp add: nothing_to_commit_iff index_add_star_twice)

lemma nothing_to_commit_after_commit:
  "nothing_to_commit (index_add_star (index_commit msg a c (index_add_star r)))"
proof -
  let ?r1 = "index_add_star r"
  let ?r2 = "index_commit msg a c ?r1"
  have w: "worktree ?r2 = worktree r" and i: "index ?r2 = index ?r1"
    by (simp_all add: index_commit_def)
  have "map_of (index (index_add_star ?r2)) = map_of (index ?r1)"
    by (simp only: map_of_index_add_star w i map_add_twice)
  moreover have "commits (index_add_star ?r2)
      = \<lparr>message = msg, author = a, committer = c, commit_tree = index ?r1\<rparr> # commits r"
    by (simp add: index_commit_def)
  ultimately show ?thesis by (simp add: nothing_to_commit_iff)
qed

lemma commit_noop:
  "repo self = Some r \<Longrightarrow> nothing_to_commit (index_add_star r) \<Longrightarrow>
   commit e self
   = (Returned True, self\<lparr>repo := Some (index_add_star r), trace := trace self @ [IndexAdd]\<rparr>)"
  by (simp add: commit_def Let_def)

lemma commit_real:
  assumes "repo self = Some r" "\<not> nothing_to_commit (index_add_star r)"
  shows "\<exists>res evs kw a.
           push e (index_commit (commit_message self) a a (index_add_star r)) kw = (res, evs)
         \<and> commit e self
           = (res, self\<lparr>repo := Some (index_commit (commit_message self) a a (index_add_star r)),
                        trace := trace self @ [IndexAdd] @ [IndexCommit (commit_message self)] @ evs\<rparr>)"
  using assms by (auto simp: commit_def Let_def split: prod.splits)

lemma push_cases:
  "remote_push e None = info # rest \<Longrightarrow>
   push e r kw = (Returned (flags info AND ERROR \<noteq> ERROR), [RemotePush None])"
  by (simp add: push_def)

lemma and_exp_eq_iff_bit: "(f AND 2 ^ n = 2 ^ n) \<longleftrightarrow> bit f n" for f :: int
proof
  assume "f AND 2 ^ n = 2 ^ n"
  then have "bit (f AND 2 ^ n) n = bit (2 ^ n :: int) n" by simp
  then show "bit f n" by (simp add: bit_and_iff bit_exp_iff)
next
  assume b: "bit f n"
  show "f AND 2 ^ n = 2 ^ n"
    by (rule bit_eqI) (use b in \<open>auto simp: bit_and_iff bit_exp_iff\<close>)
qed

lemma error_bit: "(f AND ERROR = ERROR) \<longleftrightarrow> bit f 10" for f :: int
proof -
  have "ERROR = 2 ^ 10" by (simp add: ERROR_def)
  then show ?thesis using and_exp_eq_iff_bit[of f 10] by (simp only:)
qed

text \<open>
  Claim C1.  For each of the three mutating operations of the git provider: when
  the operation of the zone store returns a boolean, the operation returns the
  conjunction of that boolean and the boolean the commit returns; and when the
  zone store returns false the provider is left exactly as the zone store left
  it, with nothing staged, committed or pushed.
\<close>

theorem mutation_result_and_commit:
  "(super_create rtype name content self = (Returned m1, s1) \<longrightarrow>
      create_record super_create e rtype name content self
        = (if m1 then commit e s1 else (Returned False, s1))
      \<and> (\<forall>c. fst (commit e s1) = Returned c \<longrightarrow>
            fst (create_record super_create e rtype name content self) = Returned (m1 \<and> c)))
   \<and> (super_update ident rtype name content self = (Returned m2, s2) \<longrightarrow>
      update_record super_update e ident rtype name content self
        = (if m2 then commit e s2 else (Returned False, s2))
      \<and> (\<forall>c. fst (commit e s2) = Returned c \<longrightarrow>
            fst (update_record super_update e ident rtype name content self)
              = Returned (m2 \<and> c)))
   \<and> (super_delete ident rtype name content self = (Returned m3, s3) \<longrightarrow>
      delete_record super_delete e ident rtype name content self
        = (if m3 then commit e s3 else (Returned False, s3))
      \<and> (\<forall>c. fst (commit e s3) = Returned c \<longrightarrow>
            fst (delete_record super_delete e ident rtype name content self)
              = Returned (m3 \<and> c)))"
  by (simp add: create_record_def update_record_def delete_record_def)

theorem mutation_result_and_commit_witness:
  "fst (create_record example_zone_create (example_env 256)
          ''A'' ''www'' ''127.0.0.1'' example_ready) = Returned True
   \<and> fst (update_record example_zone_update (example_env 1040)
          ''7'' ''A'' ''www'' ''127.0.0.1'' example_ready) = Returned False
   \<and> delete_record example_zone_delete (example_env 256)
          ''7'' ''A'' ''www'' ''127.0.0.1'' example_ready
       = (Returned False, example_ready)"
proof -
  let ?s1 = "snd (example_zone_create ''A'' ''www'' ''127.0.0.1'' example_ready)"
  have h1: "example_zone_create ''A'' ''www'' ''127.0.0.1'' example_ready = (Returned True, ?s1)"
    by (simp add: example_zone_create_def example_write_def)
  have h2: "example_zone_update ''7'' ''A'' ''www'' ''127.0.0.1'' example_ready
            = (Returned True, ?s1)"
    by (simp add: example_zone_create_def example_zone_update_def example_write_def)
  have h3: "example_zone_delete ''7'' ''A'' ''www'' ''127.0.0.1'' example_ready
            = (Returned False, example_ready)"
    by (simp add: example_zone_delete_def example_write_def example_ready_def
        example_upstream_def)
  have c1: "fst (commit (example_env 256) ?s1) = Returned True"
    by code_simp
  have c2: "fst (commit (example_env 1040) ?s1) = Returned False"
    by code_simp
  note A = mutation_result_and_commit
    [where super_create = example_zone_create and super_delete = example_zone_delete
       and rtype = "''A''" and name = "''www''" and content = "''127.0.0.1''"
       and ident = "''7''" and self = example_ready and e = "example_env 256"
       and ?m1.0 = True and ?s1.0 = ?s1 and ?m3.0 = False and ?s3.0 = example_ready]
  note B = mutation_result_and_commit
    [where super_update = example_zone_update
       and rtype = "''A''" and name = "''www''" and content = "''127.0.0.1''"
       and ident = "''7''" and self = example_ready and e = "example_env 1040"
       and ?m2.0 = True and ?s2.0 = ?s1]
  from A h1 c1 have a: "fst (create_record example_zone_create (example_env 256)
          ''A'' ''www'' ''127.0.0.1'' example_ready) = Returned True"
    by simp
  from B h2 c2 have b: "fst (update_record example_zone_update (example_env 1040)
          ''7'' ''A'' ''www'' ''127.0.0.1'' example_ready) = Returned False"
    by simp
  from A h3 have c: "delete_record example_zone_delete (example_env 256)
          ''7'' ''A'' ''www'' ''127.0.0.1'' example_ready
       = (Returned False, example_ready)"
    by simp
  from a b c show ?thesis by blast
qed

lemma commit_history_real:
  assumes "repo self = Some r" "\<not> nothing_to_commit (index_add_star r)"
  shows "\<exists>c r2. history (snd (commit e self)) = c # commits r
           \<and> repo (snd (commit e self)) = Some r2
           \<and> nothing_to_commit (index_add_star r2)"
proof -
  from commit_real[OF assms, of e] obtain res evs kw a where
    c: "commit e self
        = (res, self\<lparr>repo := Some (index_commit (commit_message self) a a (index_add_star r)),
                     trace := trace self @ [IndexAdd] @ [IndexCommit (commit_message self)] @ evs\<rparr>)"
    by blast
  let ?r2 = "index_commit (commit_message self) a a (index_add_star r)"
  have rp: "repo (snd (commit e self)) = Some ?r2"
    unfolding c by simp
  then have h: "history (snd (commit e self))
                = \<lparr>message = commit_message self, author = a, committer = a,
                    commit_tree = index (index_add_star r)\<rparr> # commits r"
    by (simp add: history_def index_commit_def)
  have "nothing_to_commit (index_add_star ?r2)"
    by (rule nothing_to_commit_after_commit)
  with rp h show ?thesis by blast
qed

lemma commit_history_noop:
  assumes "repo self = Some r" "nothing_to_commit (index_add_star r)"
  shows "fst (commit e self) = Returned True"
    and "history (snd (commit e self)) = commits r"
    and "repo (snd (commit e self)) = Some (index_add_star r)"
    and "trace (snd (commit e self)) = trace self @ [IndexAdd]"
  using assms by (simp_all add: commit_noop history_def)

text \<open>
  Claim C2.  In a state whose repository has a commit and whose index, once the
  working copy is staged, does not differ from the tree of the head commit,
  \<open>_commit\<close> returns \<open>True\<close> and creates no commit (and pushes nothing).  A
  second call right after any call of \<open>_commit\<close> is such a no-op: it returns
  \<open>True\<close> and leaves the history as the first call left it; when the first call
  had something to commit, the two calls together put exactly one new commit on
  top of the history.
\<close>

theorem commit_idempotent:
  assumes "repo self = Some r"
  shows "(head_is_valid r
            \<and> index_diff (index (index_add_star r)) (commit_tree (hd (commits r))) = []
          \<longrightarrow> fst (commit e self) = Returned True
              \<and> history (snd (commit e self)) = commits r
              \<and> trace (snd (commit e self)) = trace self @ [IndexAdd])
       \<and> fst (commit e2 (snd (commit e self))) = Returned True
       \<and> history (snd (commit e2 (snd (commit e self)))) = history (snd (commit e self))
       \<and> (\<not> nothing_to_commit (index_add_star r)
          \<longrightarrow> (\<exists>c. history (snd (commit e2 (snd (commit e self)))) = c # commits r))"
proof (intro conjI impI)
  assume "head_is_valid r
            \<and> index_diff (index (index_add_star r)) (commit_tree (hd (commits r))) = []"
  then have n: "nothing_to_commit (index_add_star r)"
    by (cases "commits r") (simp_all add: nothing_to_commit_def head_is_valid_def)
  from commit_history_noop[OF assms n]
  show "fst (commit e self) = Returned True"
    and "history (snd (commit e self)) = commits r"
    and "trace (snd (commit e self)) = trace self @ [IndexAdd]"
    by simp_all
next
  have "\<exists>r1. repo (snd (commit e self)) = Some r1 \<and> nothing_to_commit (index_add_star r1)"
  proof (cases "nothing_to_commit (index_add_star r)")
    case True
    then show ?thesis
      using commit_history_noop(3)[OF assms True] nothing_to_commit_again by simp
  next
    case False
    then show ?thesis using commit_history_real[OF assms False] by blast
  qed
  then obtain r1 where r1: "repo (snd (commit e self)) = Some r1"
    and n1: "nothing_to_commit (index_add_star r1)" by blast
  show second: "fst (commit e2 (snd (commit e self))) = Returned True"
    using commit_history_noop(1)[OF r1 n1] .
  show same: "history (snd (commit e2 (snd (commit e self)))) = history (snd (commit e self))"
    using commit_history_noop(2)[OF r1 n1] r1 by (simp add: history_def)
  assume "\<not> nothing_to_commit (index_add_star r)"
  then show "\<exists>c. history (snd (commit e2 (snd (commit e self)))) = c # commits r"
    unfolding same using commit_history_real[OF assms] by blast
qed

theorem commit_idempotent_witness:
  "fst (commit (example_env 256) example_ready) = Returned True
   \<and> history (snd (commit (example_env 256) example_ready)) = commits example_upstream
   \<and> fst (commit (example_env 256)
            (snd (commit (example_env 256)
                   (snd (example_zone_create ''A'' ''www'' ''127.0.0.1'' example_ready)))))
       = Returned True
   \<and> length (history (snd (commit (example_env 256)
            (snd (commit (example_env 256)
                   (snd (example_zone_create ''A'' ''www'' ''127.0.0.1'' example_ready)))))))
       = 2"
proof -
  let ?s1 = "snd (example_zone_create ''A'' ''www'' ''127.0.0.1'' example_ready)"
  let ?r1 = "example_upstream\<lparr>worktree := [(''example.com'', ''zone v1; www A 127.0.0.1'')]\<rparr>"
  have r0: "repo example_ready = Some example_upstream"
    by (simp add: example_ready_def)
  have h0: "head_is_valid example_upstream
            \<and> index_diff (index (index_add_star example_upstream))
                 (commit_tree (hd (commits example_upstream))) = []"
    by code_simp
  have r1: "repo ?s1 = Some ?r1"
    by (simp add: example_zone_create_def example_write_def example_ready_def)
  have h1: "\<not> nothing_to_commit (index_add_star ?r1)"
    by code_simp
  have l: "length (commits ?r1) = 1"
    by (simp add: example_upstream_def)
  from commit_idempotent [OF r0, of "example_env 256" "example_env 256"] h0
  have a: "fst (commit (example_env 256) example_ready) = Returned True
           \<and> history (snd (commit (example_env 256) example_ready)) = commits example_upstream"
    by blast
  from commit_idempotent [OF r1, of "example_env 256" "example_env 256"] h1
  have b: "fst (commit (example_env 256) (snd (commit (example_env 256) ?s1))) = Returned True"
    and "\<exists>c. history (snd (commit (example_env 256) (snd (commit (example_env 256) ?s1))))
              = c # commits ?r1"
    by blast+
  then have "length (history (snd (commit (example_env 256) (snd (commit (example_env 256) ?s1)))))
             = 2"
    using l by auto
  with a b show ?thesis by blast
qed

text \<open>
  Claim C4.  When \<open>_commit\<close> has something to commit and the push returns a
  result, the outcome is a boolean and not an exception: \<open>False\<close> when the
  \<open>ERROR\<close> bit (bit 10) of the flags of the first result is set, \<open>True\<close> when it
  is not.  In both cases the new commit is on top of the local history, and a
  mutating operation whose zone-store call succeeded returns that boolean.
\<close>

theorem push_error_flag_reported:
  assumes "repo self = Some r"
    and "\<not> nothing_to_commit (index_add_star r)"
    and "remote_push e None = info # rest"
  shows "fst (commit e self) = Returned (\<not> bit (flags info) 10)
       \<and> (\<exists>c. history (snd (commit e self)) = c # commits r)
       \<and> (super_create rtype name content self0 = (Returned True, self) \<longrightarrow>
            fst (create_record super_create e rtype name content self0)
              = Returned (\<not> bit (flags info) 10))
       \<and> (super_update ident rtype name content self0 = (Returned True, self) \<longrightarrow>
            fst (update_record super_update e ident rtype name content self0)
              = Returned (\<not> bit (flags info) 10))
       \<and> (super_delete ident rtype name content self0 = (Returned True, self) \<longrightarrow>
            fst (delete_record super_delete e ident rtype name content self0)
              = Returned (\<not> bit (flags info) 10))"
proof -
  from commit_real[OF assms(1,2), of e] obtain res evs kw a where
    p: "push e (index_commit (commit_message self) a a (index_add_star r)) kw = (res, evs)"
    and c: "commit e self
        = (res, self\<lparr>repo := Some (index_commit (commit_message self) a a (index_add_star r)),
                     trace := trace self @ [IndexAdd] @ [IndexCommit (commit_message self)] @ evs\<rparr>)"
    by blast
  from p push_cases[OF assms(3)] have "res = Returned (flags info AND ERROR \<noteq> ERROR)"
    by simp
  then have res: "fst (commit e self) = Returned (\<not> bit (flags info) 10)"
    using c by (simp add: error_bit)
  have h: "\<exists>c. history (snd (commit e self)) = c # commits r"
    using commit_history_real[OF assms(1,2)] by blast
  from res h show ?thesis
    by (simp add: create_record_def update_record_def delete_record_def)
qed

theorem push_error_flag_reported_witness:
  "fst (create_record example_zone_create (example_env 1040)
          ''A'' ''www'' ''127.0.0.1'' example_ready) = Returned False
   \<and> length (history (snd (commit (example_env 1040)
          (snd (example_zone_create ''A'' ''www'' ''127.0.0.1'' example_ready))))) = 2
   \<and> fst (create_record example_zone_create (example_env 256)
          ''A'' ''www'' ''127.0.0.1'' example_ready) = Returned True"
proof -
  let ?s1 = "snd (example_zone_create ''A'' ''www'' ''127.0.0.1'' example_ready)"
  let ?r1 = "example_upstream\<lparr>worktree := [(''example.com'', ''zone v1; www A 127.0.0.1'')]\<rparr>"
  have r1: "repo ?s1 = Some ?r1"
    by (simp add: example_zone_create_def example_write_def example_ready_def)
  have h1: "\<not> nothing_to_commit (index_add_star ?r1)"
    by code_simp
  have z: "example_zone_create ''A'' ''www'' ''127.0.0.1'' example_ready = (Returned True, ?s1)"
    by (simp add: example_zone_create_def example_write_def)
  have l: "length (commits ?r1) = 1"
    by (simp add: example_upstream_def)
  have pe: "remote_push (example_env 1040) None = \<lparr>flags = 1040, summary = ''main -> main''\<rparr> # []"
    by (simp add: example_env_def)
  have po: "remote_push (example_env 256) None = \<lparr>flags = 256, summary = ''main -> main''\<rparr> # []"
    by (simp add: example_env_def)
  have be: "bit (1040 :: int) 10" by (simp add: bit_iff_odd)
  have bo: "\<not> bit (256 :: int) 10" by (simp add: bit_iff_odd)
  note E = push_error_flag_reported
    [where self = ?s1 and e = "example_env 1040" and super_create = example_zone_create
       and rtype = "''A''" and name = "''www''" and content = "''127.0.0.1''"
       and ?self0.0 = example_ready, OF r1 h1 pe]
  note K = push_error_flag_reported
    [where self = ?s1 and e = "example_env 256" and super_create = example_zone_create
       and rtype = "''A''" and name = "''www''" and content = "''127.0.0.1''"
       and ?self0.0 = example_ready, OF r1 h1 po]
  from E z be have e1: "fst (create_record example_zone_create (example_env 1040)
          ''A'' ''www'' ''127.0.0.1'' example_ready) = Returned False"
    by simp
  from E have "\<exists>c. history (snd (commit (example_env 1040) ?s1)) = c # commits ?r1"
    by blast
  then have e2: "length (history (snd (commit (example_env 1040) ?s1))) = 2"
    using l by auto
  from K z bo have e3: "fst (create_record example_zone_create (example_env 256)
          ''A'' ''www'' ''127.0.0.1'' example_ready) = Returned True"
    by simp
  from e1 e2 e3 show ?thesis by blast
qed

text \<open>
  Claim C3, evaluated.  The provider is configured to pull \<open>main\<close> and to push
  \<open>deploy\<close>.  \<open>_commit\<close> hands \<open>branch = deploy\<close> to \<open>_push\<close>, but the call that
  reaches the remote is \<open>push()\<close> without a refspec, the same call as when no push
  branch is configured.
\<close>

theorem push_branch_not_used:
  "git_branch (opts example_ready) = Some ''main''
   \<and> git_push_branch (opts example_ready) = Some ''deploy''
   \<and> trace (snd (commit (example_env 256)
         (snd (example_zone_create ''A'' ''www'' ''127.0.0.1'' example_ready))))
       = [IndexAdd, IndexCommit ''Update example.com (automated commit)'', RemotePush None]
   \<and> push (example_env 256) example_upstream [(''branch'', ''deploy'')]
       = push (example_env 256) example_upstream []"
  by code_simp

section \<open>Properties of authentication\<close>

lemma zone_filename_returns:
  "\<exists>z. zone_filename cwd tmpl dmn = Returned z \<and> \<not> isabs z"
proof -
  obtain N where pl: "list_all plain_component N"
    and z: "zone_filename cwd tmpl dmn = Returned (if N = [] then ''.'' else str_join ''/'' N)"
    using zone_filename_shape by blast
  have "\<not> isabs (if N = [] then ''.'' else str_join ''/'' N)"
  proof (cases N)
    case Nil
    then show ?thesis by (simp add: isabs_def startswith_def)
  next
    case (Cons c cs)
    then have "plain_component c" using pl by simp
    then have "c \<noteq> []" "hd c \<noteq> CHR ''/''"
      by (cases c; auto simp: plain_component_def)+
    then show ?thesis
      using Cons by (simp add: isabs_def startswith_single str_join_concat)
  qed
  with z show ?thesis by blast
qed

lemma zone_filename_cwd: "zone_filename cwd tmpl dmn = zone_filename cwd2 tmpl dmn"
proof -
  have a: "isabs (path_join ''/'' [f])" for f
    by (simp add: path_join_root isabs_def) (simp add: startswith_def)
  have "relpath cwd p ''/'' = relpath cwd2 p ''/''" if "isabs p" for p
  proof -
    have "abspath cwd p = abspath cwd2 p" using that by (simp add: abspath_def)
    then show ?thesis by (simp add: relpath_def abspath_root)
  qed
  then show ?thesis
    unfolding zone_filename_def Let_def using a by blast
qed

lemma ensure_temp_dir_first:
  assumes "temp_dir self = None"
    and "zone_filename (getcwd e) (git_path (opts self)) (domain self) = Returned z"
  shows "ensure_temp_dir e self
         = (Returned (),
            self\<lparr>temp_dir := Some (mkdtemp e),
                 trace := trace self @ [TemporaryDirectory (mkdtemp e), ZoneFilename],
                 filename := path_join (mkdtemp e) [z]\<rparr>)"
  using assms by (simp add: ensure_temp_dir_def Let_def)

lemma ensure_temp_dir_later:
  "temp_dir self = Some t \<Longrightarrow> ensure_temp_dir e self = (Returned (), self)"
  by (simp add: ensure_temp_dir_def)

lemma ensure_repo_later:
  "repo self = Some r \<Longrightarrow> ensure_repo e self = (Returned (), self)"
  by (simp add: ensure_repo_def)

lemma ensure_repo_first:
  assumes "repo self = None" "temp_dir self = Some t"
  shows "ensure_repo e self
     = (let kw = (case git_branch (opts self) of None \<Rightarrow> [] | Some b \<Rightarrow> [(''branch'', b)]);
            self1 = self\<lparr>trace := trace self @ [CloneFrom (git_repo (opts self)) t kw]\<rparr>
        in case clone_from e (git_repo (opts self)) t kw of
             GitCommandError stderr \<Rightarrow> (Raised AuthenticationError, self1)
           | Cloned r \<Rightarrow> (Returned (), self1\<lparr>repo := Some r\<rparr>))"
  using assms by (simp add: ensure_repo_def clone_def Let_def)

lemma clone_calls_append [simp]: "clone_calls (xs @ ys) = clone_calls xs @ clone_calls ys"
  by (simp add: clone_calls_def)

lemma clone_calls_simps [simp]:
  "clone_calls [] = []"
  "clone_calls (CloneFrom u t kw # evs) = CloneFrom u t kw # clone_calls evs"
  "clone_calls (TemporaryDirectory d # evs) = clone_calls evs"
  "clone_calls (ZoneFilename # evs) = clone_calls evs"
  "clone_calls (OpenRead f # evs) = clone_calls evs"
  by (simp_all add: clone_calls_def)

lemma tempdir_calls_append [simp]:
  "tempdir_calls (xs @ ys) = tempdir_calls xs @ tempdir_calls ys"
  by (simp add: tempdir_calls_def)

lemma tempdir_calls_simps [simp]:
  "tempdir_calls [] = []"
  "tempdir_calls (TemporaryDirectory d # evs) = TemporaryDirectory d # tempdir_calls evs"
  "tempdir_calls (CloneFrom u t kw # evs) = tempdir_calls evs"
  "tempdir_calls (ZoneFilename # evs) = tempdir_calls evs"
  "tempdir_calls (OpenRead f # evs) = tempdir_calls evs"
  by (simp_all add: tempdir_calls_def)

lemma path_calls_append [simp]: "path_calls (xs @ ys) = path_calls xs @ path_calls ys"
  by (simp add: path_calls_def)

lemma path_calls_simps [simp]:
  "path_calls [] = []"
  "path_calls (ZoneFilename # evs) = ZoneFilename # path_calls evs"
  "path_calls (TemporaryDirectory d # evs) = path_calls evs"
  "path_calls (CloneFrom u t kw # evs) = path_calls evs"
  "path_calls (OpenRead f # evs) = path_calls evs"
  by (simp_all add: path_calls_def)

lemma open_rt_cong:
  "temp_dir a = temp_dir b \<Longrightarrow> repo a = repo b \<Longrightarrow> open_rt a f = open_rt b f"
  by (simp add: open_rt_def files_on_disk_def)

lemma open_rt_no_repo: "repo self = None \<Longrightarrow> \<not> open_rt self f"
  by (simp add: open_rt_def files_on_disk_def split: option.splits)

lemma check_zone_file_cases:
  "check_zone_file self
   = (if open_rt self (filename self)
      then (Returned (), self\<lparr>trace := trace self @ [OpenRead (filename self)],
                              domain_id := Some (domain self)\<rparr>)
      else (Raised AuthenticationError, self\<lparr>trace := trace self @ [OpenRead (filename self)]\<rparr>))"
proof -
  have "open_rt (self\<lparr>trace := trace self @ [OpenRead (filename self)]\<rparr>) (filename self)
        = open_rt self (filename self)"
    by (rule open_rt_cong) simp_all
  then show ?thesis by (simp add: check_zone_file_def Let_def)
qed

lemma authenticate_effect:
  assumes z: "zone_filename (getcwd e) (git_path (opts self)) (domain self) = Returned z"
  defines "t \<equiv> (case temp_dir self of None \<Rightarrow> mkdtemp e | Some d \<Rightarrow> d)"
  defines "kw \<equiv> (case git_branch (opts self) of None \<Rightarrow> [] | Some b \<Rightarrow> [(''branch'', b)])"
  defines "out \<equiv> clone_from e (git_repo (opts self)) t kw"
  defines "after \<equiv> snd (authenticate e self)"
  shows "fst (authenticate e self)
           = (if (repo self = None \<and> clone_fails out) \<or> \<not> open_rt after (filename after)
              then Raised AuthenticationError else Returned ())"
    and "repo after = (case repo self of
                         Some r \<Rightarrow> Some r
                       | None \<Rightarrow> (case out of Cloned r \<Rightarrow> Some r
                                   | GitCommandError stderr \<Rightarrow> None))"
    and "clone_calls (trace after)
           = clone_calls (trace self)
             @ (if repo self = None then [CloneFrom (git_repo (opts self)) t kw] else [])"
    and "temp_dir after = Some t"
    and "filename after
           = (if temp_dir self = None then path_join (mkdtemp e) [z] else filename self)"
    and "tempdir_calls (trace after)
           = tempdir_calls (trace self)
             @ (if temp_dir self = None then [TemporaryDirectory (mkdtemp e)] else [])"
    and "path_calls (trace after)
           = path_calls (trace self) @ (if temp_dir self = None then [ZoneFilename] else [])"
    and "opts after = opts self" and "domain after = domain self"
proof -
  have "(fst (authenticate e self)
           = (if (repo self = None \<and> clone_fails out) \<or> \<not> open_rt after (filename after)
              then Raised AuthenticationError else Returned ()))
    \<and> repo after = (case repo self of
                         Some r \<Rightarrow> Some r
                       | None \<Rightarrow> (case out of Cloned r \<Rightarrow> Some r
                                   | GitCommandError stderr \<Rightarrow> None))
    \<and> clone_calls (trace after)
           = clone_calls (trace self)
             @ (if repo self = None then [CloneFrom (git_repo (opts self)) t kw] else [])
    \<and> temp_dir after = Some t
    \<and> filename after
           = (if temp_dir self = None then path_join (mkdtemp e) [z] else filename self)
    \<and> tempdir_calls (trace after)
           = tempdir_calls (trace self)
             @ (if temp_dir self = None then [TemporaryDirectory (mkdtemp e)] else [])
    \<and> path_calls (trace after)
           = path_calls (trace self) @ (if temp_dir self = None then [ZoneFilename] else [])
    \<and> opts after = opts self \<and> domain after = domain self"
  proof (cases "temp_dir self")
    case None
    note td = ensure_temp_dir_first[OF None z]
    show ?thesis
    proof (cases "repo self")
      case None
      then show ?thesis
        using \<open>temp_dir self = None\<close> unfolding after_def out_def t_def kw_def
        by (cases "clone_from e (git_repo (opts self)) (mkdtemp e)
                     (case git_branch (opts self) of None \<Rightarrow> [] | Some b \<Rightarrow> [(''branch'', b)])")
           (simp_all add: authenticate_def td ensure_repo_first Let_def check_zone_file_cases
              clone_fails_def open_rt_def files_on_disk_def)
    next
      case (Some r)
      then show ?thesis
        using \<open>temp_dir self = None\<close> unfolding after_def out_def t_def kw_def
        by (simp add: authenticate_def td ensure_repo_later Let_def check_zone_file_cases
              open_rt_def files_on_disk_def)
    qed
  next
    case (Some d)
    note td = ensure_temp_dir_later[OF Some]
    show ?thesis
    proof (cases "repo self")
      case None
      then show ?thesis
        using \<open>temp_dir self = Some d\<close> unfolding after_def out_def t_def kw_def
        by (cases "clone_from e (git_repo (opts self)) d
                     (case git_branch (opts self) of None \<Rightarrow> [] | Some b \<Rightarrow> [(''branch'', b)])")
           (simp_all add: authenticate_def td ensure_repo_first Let_def check_zone_file_cases
              clone_fails_def open_rt_def files_on_disk_def)
    next
      case (Some r)
      then show ?thesis
        using \<open>temp_dir self = Some d\<close> unfolding after_def out_def t_def kw_def
        by (simp add: authenticate_def td ensure_repo_later Let_def check_zone_file_cases
              open_rt_def files_on_disk_def)
    qed
  qed
  then show "fst (authenticate e self)
           = (if (repo self = None \<and> clone_fails out) \<or> \<not> open_rt after (filename after)
              then Raised AuthenticationError else Returned ())"
    and "repo after = (case repo self of
                         Some r \<Rightarrow> Some r
                       | None \<Rightarrow> (case out of Cloned r \<Rightarrow> Some r
                                   | GitCommandError stderr \<Rightarrow> None))"
    and "clone_calls (trace after)
           = clone_calls (trace self)
             @ (if repo self = None then [CloneFrom (git_repo (opts self)) t kw] else [])"
    and "temp_dir after = Some t"
    and "filename after
           = (if temp_dir self = None then path_join (mkdtemp e) [z] else filename self)"
    and "tempdir_calls (trace after)
           = tempdir_calls (trace self)
             @ (if temp_dir self = None then [TemporaryDirectory (mkdtemp e)] else [])"
    and "path_calls (trace after)
           = path_calls (trace self) @ (if temp_dir self = None then [ZoneFilename] else [])"
    and "opts after = opts self" and "domain after = domain self"
    by blast+
qed





lemma authenticate_all_Cons:
  "authenticate_all (e # es) p = authenticate_all es (snd (authenticate e p))"
  by (simp add: authenticate_all_def)

lemma authenticate_all_append:
  "authenticate_all (es1 @ es2) p = authenticate_all es2 (authenticate_all es1 p)"
  by (simp add: authenticate_all_def)

lemma authenticate_keeps_repo:
  assumes "repo p = Some r"
  shows "repo (snd (authenticate e p)) = Some r"
    and "clone_calls (trace (snd (authenticate e p))) = clone_calls (trace p)"
proof -
  obtain z where z: "zone_filename (getcwd e) (git_path (opts p)) (domain p) = Returned z"
    using zone_filename_returns by blast
  from authenticate_effect(2,3)[OF z] assms
  show "repo (snd (authenticate e p)) = Some r"
    and "clone_calls (trace (snd (authenticate e p))) = clone_calls (trace p)"
    by simp_all
qed

lemma authenticate_keeps_temp_dir:
  assumes "temp_dir p = Some t"
  shows "temp_dir (snd (authenticate e p)) = Some t"
    and "filename (snd (authenticate e p)) = filename p"
    and "tempdir_calls (trace (snd (authenticate e p))) = tempdir_calls (trace p)"
    and "path_calls (trace (snd (authenticate e p))) = path_calls (trace p)"
proof -
  obtain z where z: "zone_filename (getcwd e) (git_path (opts p)) (domain p) = Returned z"
    using zone_filename_returns by blast
  from authenticate_effect(4,5,6,7)[OF z] assms
  show "temp_dir (snd (authenticate e p)) = Some t"
    and "filename (snd (authenticate e p)) = filename p"
    and "tempdir_calls (trace (snd (authenticate e p))) = tempdir_calls (trace p)"
    and "path_calls (trace (snd (authenticate e p))) = path_calls (trace p)"
    by simp_all
qed

lemma authenticate_all_keeps_repo:
  "repo p = Some r \<Longrightarrow>
   repo (authenticate_all es p) = Some r
   \<and> clone_calls (trace (authenticate_all es p)) = clone_calls (trace p)"
proof (induction es arbitrary: p)
  case Nil
  then show ?case by (simp add: authenticate_all_def)
next
  case (Cons e es)
  from authenticate_keeps_repo[OF Cons.prems, of e] Cons.IH[of "snd (authenticate e p)"]
  show ?case by (simp add: authenticate_all_Cons)
qed

lemma authenticate_all_keeps_temp_dir:
  "temp_dir p = Some t \<Longrightarrow>
   temp_dir (authenticate_all es p) = Some t
   \<and> filename (authenticate_all es p) = filename p
   \<and> tempdir_calls (trace (authenticate_all es p)) = tempdir_calls (trace p)
   \<and> path_calls (trace (authenticate_all es p)) = path_calls (trace p)"
proof (induction es arbitrary: p)
  case Nil
  then show ?case by (simp add: authenticate_all_def)
next
  case (Cons e es)
  from authenticate_keeps_temp_dir[OF Cons.prems, of e] Cons.IH[of "snd (authenticate e p)"]
  show ?case by (simp add: authenticate_all_Cons)
qed

text \<open>
  Claim C8, as stated, fails: when the clone of the first call fails, the second
  call clones, so a clone is created by a call that is not the first, and two
  clone calls have been made.
\<close>

theorem clone_only_on_first_call_counterexample:
  "repo (authenticate_all [example_env_down] (Provider example_options ''example.com'' []))
     = None
   \<and> repo (authenticate_all [example_env_down, example_env 256]
            (Provider example_options ''example.com'' []))
     = Some example_upstream
   \<and> clone_calls (trace (authenticate_all [example_env_down, example_env 256]
            (Provider example_options ''example.com'' [])))
     = [CloneFrom (Some ''https://git.example.org/zones.git'') ''/tmp/dns-lexicon-git-x1''
          [(''branch'', ''main'')],
        CloneFrom (Some ''https://git.example.org/zones.git'') ''/tmp/dns-lexicon-git-x1''
          [(''branch'', ''main'')]]"
  by code_simp

text \<open>
  Claim C8, amended.  Over every non-empty sequence of \<open>_authenticate\<close> calls on a
  new instance, the temporary directory is created once, by the first call, and
  the zone-file path is computed once, by that call; it is a function of the
  path template and the domain alone (the current directory does not matter), and
  \<open>filename\<close> keeps that value.  A clone is attempted only by a call made while
  the instance has no clone: once a call has cloned, every later call keeps that
  clone and makes no clone call.
\<close>

theorem authenticate_session_reuse:
  "(let final = authenticate_all (e # es) (Provider config dmn base)
    in tempdir_calls (trace final) = [TemporaryDirectory (mkdtemp e)]
     \<and> temp_dir final = Some (mkdtemp e)
     \<and> path_calls (trace final) = [ZoneFilename]
     \<and> (\<exists>z. (\<forall>cwd. zone_filename cwd (git_path config) dmn = Returned z)
            \<and> filename final = path_join (mkdtemp e) [z]))
   \<and> (repo (authenticate_all es1 p) = Some r \<longrightarrow>
        repo (authenticate_all (es1 @ es2) p) = Some r
        \<and> clone_calls (trace (authenticate_all (es1 @ es2) p))
            = clone_calls (trace (authenticate_all es1 p)))"
proof -
  let ?p0 = "Provider config dmn base"
  let ?s1 = "snd (authenticate e ?p0)"
  have p0: "temp_dir ?p0 = None" "trace ?p0 = []" "opts ?p0 = config" "domain ?p0 = dmn"
    by (simp_all add: Provider_def)
  obtain z where z: "zone_filename (getcwd e) (git_path (opts ?p0)) (domain ?p0) = Returned z"
    using zone_filename_returns by blast
  then have zc: "zone_filename cwd (git_path config) dmn = Returned z" for cwd
    using zone_filename_cwd[of cwd "git_path config" dmn "getcwd e"] by (simp add: p0)
  from authenticate_effect(4,5,6,7)[OF z]
  have s1: "temp_dir ?s1 = Some (mkdtemp e)" "filename ?s1 = path_join (mkdtemp e) [z]"
    "tempdir_calls (trace ?s1) = [TemporaryDirectory (mkdtemp e)]"
    "path_calls (trace ?s1) = [ZoneFilename]"
    by (simp_all add: p0)
  from authenticate_all_keeps_temp_dir[OF s1(1), of es] s1 zc
  have first: "let final = authenticate_all (e # es) ?p0
    in tempdir_calls (trace final) = [TemporaryDirectory (mkdtemp e)]
     \<and> temp_dir final = Some (mkdtemp e)
     \<and> path_calls (trace final) = [ZoneFilename]
     \<and> (\<exists>z. (\<forall>cwd. zone_filename cwd (git_path config) dmn = Returned z)
            \<and> filename final = path_join (mkdtemp e) [z])"
    unfolding Let_def authenticate_all_Cons by auto
  have second: "repo (authenticate_all es1 p) = Some r \<longrightarrow>
        repo (authenticate_all (es1 @ es2) p) = Some r
        \<and> clone_calls (trace (authenticate_all (es1 @ es2) p))
            = clone_calls (trace (authenticate_all es1 p))"
    using authenticate_all_keeps_repo[of "authenticate_all es1 p" r es2]
    by (simp add: authenticate_all_append)
  from first second show ?thesis by blast
qed

theorem authenticate_session_reuse_witness:
  "tempdir_calls (trace (authenticate_all [example_env_down, example_env 256, example_env 256]
      (Provider example_options ''example.com'' [])))
     = [TemporaryDirectory ''/tmp/dns-lexicon-git-x1'']
   \<and> path_calls (trace (authenticate_all [example_env_down, example_env 256, example_env 256]
      (Provider example_options ''example.com'' []))) = [ZoneFilename]
   \<and> repo (authenticate_all ([example_env_down, example_env 256] @ [example_env 256])
      (Provider example_options ''example.com'' [])) = Some example_upstream
   \<and> clone_calls (trace (authenticate_all ([example_env_down, example_env 256] @ [example_env 256])
      (Provider example_options ''example.com'' [])))
     = clone_calls (trace (authenticate_all [example_env_down, example_env 256]
      (Provider example_options ''example.com'' [])))"
proof -
  have r: "repo (authenticate_all [example_env_down, example_env 256]
            (Provider example_options ''example.com'' [])) = Some example_upstream"
    by code_simp
  have m: "mkdtemp example_env_down = ''/tmp/dns-lexicon-git-x1''"
    by (simp add: example_env_down_def example_env_def)
  from authenticate_session_reuse
         [where e = example_env_down and es = "[example_env 256, example_env 256]"
            and config = example_options and dmn = "''example.com''" and base = "[]"
            and ?es1.0 = "[example_env_down, example_env 256]" and ?es2.0 = "[example_env 256]"
            and p = "Provider example_options ''example.com'' []" and r = example_upstream]
       r
  show ?thesis unfolding Let_def m by blast
qed

section \<open>Properties of the DigitalOcean provider\<close>

lemma posted_append [simp]: "posted (xs @ ys) = posted xs @ posted ys"
  by (simp add: posted_def)

lemma request_effect:
  assumes "request h self action url data = (res, s1)"
  shows "api_endpoint s1 = api_endpoint self \<and> do_domain_id s1 = do_domain_id self
   \<and> (\<exists>u. sent s1 = sent self @ [(action, u, data)])
   \<and> (res = Raised HTTPError \<or> (\<exists>b. res = Returned b))
   \<and> ((\<forall>a u d. h a u d \<noteq> None) \<longrightarrow> (\<exists>b. res = Returned b \<and> (action \<noteq> ''DELETE'' \<longrightarrow> b \<noteq> NoBody)))"
proof -
  let ?u = "if \<not> startswith url (api_endpoint self) then api_endpoint self @ url else url"
  show ?thesis
  proof (cases "h action ?u data")
    case None
    then have "\<not> (\<forall>a u d. h a u d \<noteq> None)" by blast
    moreover from None assms
    have "res = Raised HTTPError" "s1 = self\<lparr>sent := sent self @ [(action, ?u, data)]\<rparr>"
      by (simp_all add: request_def Let_def)
    ultimately show ?thesis by simp
  next
    case (Some js)
    with assms
    have "res = Returned (if action = ''DELETE'' then NoBody else Json js)"
      "s1 = self\<lparr>sent := sent self @ [(action, ?u, data)]\<rparr>"
      by (simp_all add: request_def Let_def)
    then show ?thesis by simp
  qed
qed

lemma get_effect:
  assumes "get h self url = (res, s1)"
  shows "api_endpoint s1 = api_endpoint self" "do_domain_id s1 = do_domain_id self"
    "posted (sent s1) = posted (sent self)"
    "(\<forall>a u d. h a u d \<noteq> None) \<Longrightarrow> \<exists>js. res = Returned (Json js)"
proof -
  note r = request_effect[OF assms[unfolded get_def]]
  from r show "api_endpoint s1 = api_endpoint self" "do_domain_id s1 = do_domain_id self"
    by simp_all
  from r show "posted (sent s1) = posted (sent self)"
    by (auto simp: posted_def)
  assume "\<forall>a u d. h a u d \<noteq> None"
  with r obtain b where "res = Returned b" "b \<noteq> NoBody" by auto
  then show "\<exists>js. res = Returned (Json js)" by (cases b) auto
qed

lemma post_effect:
  assumes "post h self url data = (res, s1)"
  shows "posted (sent s1) = posted (sent self) @ [data]"
    "res = Raised HTTPError \<or> (\<exists>b. res = Returned b)"
    "(\<forall>a u d. h a u d \<noteq> None) \<Longrightarrow> \<exists>b. res = Returned b"
proof -
  note r = request_effect[OF assms[unfolded post_def]]
  from r show "posted (sent s1) = posted (sent self) @ [data]"
    by (auto simp: posted_def)
  from r show "res = Raised HTTPError \<or> (\<exists>b. res = Returned b)" by blast
  assume "\<forall>a u d. h a u d \<noteq> None"
  with r show "\<exists>b. res = Returned b" by blast
qed

lemma fetch_pages_returns:
  "pages_within n h self next \<Longrightarrow> \<exists>res s'. fetch_pages h self next records = Some (res, s')"
proof (induction n h self "next" arbitrary: records rule: pages_within.induct)
  case (1 n h self)
  then show ?case by (subst fetch_pages.simps) simp
next
  case (2 h self url)
  then show ?case by simp
next
  case (3 n h self url)
  show ?case
  proof (cases "get h self url")
    case (Pair res s1)
    show ?thesis
    proof (cases res)
      case (Inl err)
      then show ?thesis using Pair by (subst fetch_pages.simps) simp
    next
      case (Inr b)
      show ?thesis
      proof (cases b)
        case NoBody
        then show ?thesis using Pair Inr by (subst fetch_pages.simps) simp
      next
        case (Json js)
        with 3 Pair Inr have "pages_within n h s1 (next_page js)" by simp
        from "3.IH"[OF Pair[symmetric] Inr Json this]
        obtain r s' where "fetch_pages h s1 (next_page js)
            (records @ map (processed_record s1) (domain_records js)) = Some (r, s')"
          by blast
        then show ?thesis using Pair Inr Json by (subst fetch_pages.simps) simp
      qed
    qed
  qed
qed

lemma fetch_pages_gets:
  "fetch_pages h self next records = Some y \<Longrightarrow>
   posted (sent (snd y)) = posted (sent self)
   \<and> ((\<forall>a u d. h a u d \<noteq> None) \<longrightarrow> (\<exists>recs. fst y = Returned recs))"
proof (induction h self "next" records y rule: fetch_pages.raw_induct[rotated 1, consumes 1])
  case (1 fetch_pages h self "next" records y)
  show ?case
  proof (cases "next")
    case None
    then show ?thesis using 1(2) by auto
  next
    case (Some url)
    show ?thesis
    proof (cases "get h self url")
      case (Pair res s1)
      note g = get_effect[OF Pair]
      show ?thesis
      proof (cases res)
        case (Inl err)
        then show ?thesis using 1(2) Some Pair g by auto
      next
        case (Inr b)
        show ?thesis
        proof (cases b)
          case NoBody
          then show ?thesis using 1(2) Some Pair Inr g by auto
        next
          case (Json js)
          with 1(2) Some Pair Inr
          have "fetch_pages h s1 (next_page js)
                  (records @ map (processed_record s1) (domain_records js)) = Some y"
            by simp
          from 1(1)[OF this] g(3) show ?thesis by simp
        qed
      qed
    qed
  qed
qed

lemma list_records_cases:
  "list_records h base self rtype name content = Some (res, s1) \<Longrightarrow>
   posted (sent s1) = posted (sent self)
   \<and> ((\<forall>a u d. h a u d \<noteq> None) \<longrightarrow> (\<exists>found. res = Returned found))"
proof -
  assume l: "list_records h base self rtype name content = Some (res, s1)"
  then obtain y where
    f: "fetch_pages h self (Some (''/domains/'' @ format0 (do_domain_id self) @ ''/records'')) []
        = Some y"
    by (auto simp: list_records_def split: option.splits)
  from l f have s: "snd y = s1" and r: "(\<exists>recs. fst y = Returned recs) \<longrightarrow> (\<exists>found. res = Returned found)"
    by (cases y; cases "fst y"; auto simp: list_records_def)+
  from fetch_pages_gets[OF f] s r show ?thesis by auto
qed

lemma list_records_returns:
  "pages_within n h self (Some (''/domains/'' @ format0 (do_domain_id self) @ ''/records'')) \<Longrightarrow>
   \<exists>res s1. list_records h base self rtype name content = Some (res, s1)"
proof -
  assume "pages_within n h self (Some (''/domains/'' @ format0 (do_domain_id self) @ ''/records''))"
  from fetch_pages_returns[OF this, of "[]"] obtain r s' where
    "fetch_pages h self (Some (''/domains/'' @ format0 (do_domain_id self) @ ''/records'')) []
       = Some (r, s')" by blast
  then show ?thesis by (cases r) (simp_all add: list_records_def)
qed

lemma do_create_record_found:
  "list_records h base self (Some rtype) (Some name) (Some content) = Some (Returned found, s1)
   \<Longrightarrow> found \<noteq> [] \<Longrightarrow>
   do_create_record h base self rtype name content = Some (Returned True, s1)"
  by (simp add: do_create_record_def)

lemma do_create_record_new:
  assumes "list_records h base self (Some rtype) (Some name) (Some content)
           = Some (Returned [], s1)"
  shows "\<exists>res s2.
           post h s1 (''/domains/'' @ format0 (do_domain_id s1) @ ''/records'')
             \<lparr>new_type = rtype, new_name = relative_name base name,
              new_data = (if rtype = ''CNAME'' then rstrip content ''.'' @ ''.'' else content)\<rparr>
             = (res, s2)
         \<and> do_create_record h base self rtype name content
             = Some (case res of Inl err \<Rightarrow> Raised err | Inr b \<Rightarrow> Returned True, s2)"
  using assms by (simp add: do_create_record_def Let_def split: prod.splits sum.splits)

text \<open>
  Claim C9.  \<open>create_record\<close> of the DigitalOcean provider never returns
  \<open>False\<close>: whenever it returns, it returns \<open>True\<close>.  It does return \<open>True\<close> when
  the listing ends within some number of pages and the backend answers every
  request without an error status.  When the listing finds a record with the
  given type, name and content, the call returns \<open>True\<close> at once: it sends no
  creation request.
\<close>

theorem do_create_record_reports_success:
  "(do_create_record h base self rtype name content = Some (Returned b, s') \<longrightarrow> b)
   \<and> (pages_within n h self (Some (''/domains/'' @ format0 (do_domain_id self) @ ''/records''))
        \<and> (\<forall>a u d. h a u d \<noteq> None)
      \<longrightarrow> (\<exists>s2. do_create_record h base self rtype name content = Some (Returned True, s2)))
   \<and> (list_records h base self (Some rtype) (Some name) (Some content)
          = Some (Returned found, s1) \<and> found \<noteq> []
      \<longrightarrow> do_create_record h base self rtype name content = Some (Returned True, s1)
          \<and> posted (sent s1) = posted (sent self))"
proof (intro conjI impI)
  assume "do_create_record h base self rtype name content = Some (Returned b, s')"
  then show b
    by (auto simp: do_create_record_def Let_def split: option.splits prod.splits sum.splits
        if_splits)
next
  assume a: "pages_within n h self (Some (''/domains/'' @ format0 (do_domain_id self) @ ''/records''))
        \<and> (\<forall>a u d. h a u d \<noteq> None)"
  then obtain res s1 where
    l: "list_records h base self (Some rtype) (Some name) (Some content) = Some (res, s1)"
    using list_records_returns by blast
  with a list_records_cases[OF l] obtain found where res: "res = Returned found" by blast
  show "\<exists>s2. do_create_record h base self rtype name content = Some (Returned True, s2)"
  proof (cases "found = []")
    case True
    from do_create_record_new[OF l[unfolded res True]] obtain r s2 where
      p: "post h s1 (''/domains/'' @ format0 (do_domain_id s1) @ ''/records'')
             \<lparr>new_type = rtype, new_name = relative_name base name,
              new_data = (if rtype = ''CNAME'' then rstrip content ''.'' @ ''.'' else content)\<rparr>
             = (r, s2)"
      and c: "do_create_record h base self rtype name content
             = Some (case r of Inl err \<Rightarrow> Raised err | Inr b \<Rightarrow> Returned True, s2)"
      by blast
    from post_effect(3)[OF p] a obtain b where "r = Returned b" by blast
    with c show ?thesis by simp
  next
    case False
    with l res show ?thesis using do_create_record_found by blast
  qed
next
  assume a: "list_records h base self (Some rtype) (Some name) (Some content)
          = Some (Returned found, s1) \<and> found \<noteq> []"
  then show "do_create_record h base self rtype name content = Some (Returned True, s1)"
    using do_create_record_found by blast
  from a list_records_cases show "posted (sent s1) = posted (sent self)" by blast
qed

theorem do_create_record_reports_success_witness:
  "do_create_record example_http example_base example_do ''A'' ''www'' ''127.0.0.1''
     = Some (Returned True,
         example_do\<lparr>sent :=
           [(''GET'', ''https://api.digitalocean.com/v2/domains/example.com/records'', None),
            (''GET'', ''https://api.digitalocean.com/v2/domains/example.com/records?page=2'',
             None)]\<rparr>)
   \<and> (\<exists>s2. do_create_record example_http example_base example_do ''A'' ''mail'' ''127.0.0.2''
             = Some (Returned True, s2))"
proof -
  let ?s1 = "example_do\<lparr>sent :=
           [(''GET'', ''https://api.digitalocean.com/v2/domains/example.com/records'', None),
            (''GET'', ''https://api.digitalocean.com/v2/domains/example.com/records?page=2'',
             None)]\<rparr>"
  have l: "list_records example_http example_base example_do
             (Some ''A'') (Some ''www'') (Some ''127.0.0.1'')
           = Some (Returned [\<lparr>rec_type = ''A'', rec_name = ''www.example.com'', rec_ttl = [],
                               rec_content = ''127.0.0.1'', rec_id = 1\<rparr>], ?s1)"
    by code_simp
  have pw: "pages_within 2 example_http example_do
              (Some (''/domains/'' @ format0 (do_domain_id example_do) @ ''/records''))"
    by code_simp
  have ok: "\<forall>a u d. example_http a u d \<noteq> None"
    by (simp add: example_http_def)
  from do_create_record_reports_success
         [where h = example_http and base = example_base and self = example_do
            and rtype = "''A''" and name = "''www''" and content = "''127.0.0.1''"
            and found = "[\<lparr>rec_type = ''A'', rec_name = ''www.example.com'', rec_ttl = [],
                               rec_content = ''127.0.0.1'', rec_id = 1\<rparr>]" and ?s1.0 = ?s1]
       l
  have a: "do_create_record example_http example_base example_do ''A'' ''www'' ''127.0.0.1''
           = Some (Returned True, ?s1)"
    by simp
  from do_create_record_reports_success
         [where h = example_http and base = example_base and self = example_do
            and rtype = "''A''" and name = "''mail''" and content = "''127.0.0.2''" and n = 2]
       pw ok
  have b: "\<exists>s2. do_create_record example_http example_base example_do ''A'' ''mail'' ''127.0.0.2''
             = Some (Returned True, s2)"
    by blast
  from a b show ?thesis by blast
qed

lemma rstrip_dots_split: "\<exists>k. s = rstrip s ''.'' @ replicate k CHR ''.''"
proof -
  let ?P = "\<lambda>c. c \<in> set ''.''"
  have "takeWhile ?P xs = replicate (length (takeWhile ?P xs)) CHR ''.''" for xs :: string
    by (induction xs) auto
  then have t: "rev (takeWhile ?P (rev s)) = replicate (length (takeWhile ?P (rev s))) CHR ''.''"
    by (metis rev_replicate)
  have "rev s = takeWhile ?P (rev s) @ dropWhile ?P (rev s)" by simp
  then have "s = rev (dropWhile ?P (rev s)) @ rev (takeWhile ?P (rev s))"
    by (metis rev_append rev_rev_ident)
  with t show ?thesis unfolding rstrip_def by metis
qed

lemma rstrip_dots_last: "rstrip s ''.'' = [] \<or> last (rstrip s ''.'') \<noteq> CHR ''.''"
proof (cases "dropWhile (\<lambda>c. c \<in> set ''.'') (rev s)")
  case Nil
  then show ?thesis by (simp add: rstrip_def)
next
  case (Cons c cs)
  then have "\<not> (c \<in> set ''.'')"
    using hd_dropWhile[of "\<lambda>c. c \<in> set ''.''" "rev s"] by simp
  then show ?thesis using Cons by (simp add: rstrip_def)
qed

lemma one_trailing_dot:
  "endswith (rstrip s ''.'' @ ''.'') ''.'' \<and> \<not> endswith (rstrip s ''.'' @ ''.'') ''..''"
proof -
  let ?x = "rstrip s ''.''"
  have a: "endswith (?x @ ''.'') ''.''" by (simp add: endswith_def)
  have b: "\<not> endswith (?x @ ''.'') ''..''"
  proof (cases "?x" rule: rev_cases)
    case Nil
    then show ?thesis by (simp add: endswith_def)
  next
    case (snoc ys y)
    with rstrip_dots_last[of s] have "y \<noteq> CHR ''.''" by simp
    then show ?thesis using snoc by (simp add: endswith_def)
  qed
  from a b show ?thesis by blast
qed

lemma rstrip_dot_appended: "rstrip (s @ ''.'') ''.'' = rstrip s ''.''"
  by (simp add: rstrip_def)

text \<open>
  Claim C10.  When \<open>create_record\<close> of the DigitalOcean provider finds no
  matching record, it sends one creation request.  For the type \<open>CNAME\<close> the
  data of the record it carries is the content without its trailing dots,
  followed by one dot: it ends with a dot and not with two, whatever number of
  dots the content ended with.  For every other type the data is the content,
  unchanged.
\<close>

theorem cname_data_normalized:
  assumes "list_records h base self (Some rtype) (Some name) (Some content)
           = Some (Returned [], s1)"
  shows "(\<exists>res s2. do_create_record h base self rtype name content = Some (res, s2)
            \<and> posted (sent s2)
                = posted (sent self)
                  @ [\<lparr>new_type = rtype, new_name = relative_name base name,
                      new_data = (if rtype = ''CNAME'' then rstrip content ''.'' @ ''.''
                                  else content)\<rparr>])
       \<and> endswith (rstrip content ''.'' @ ''.'') ''.''
       \<and> \<not> endswith (rstrip content ''.'' @ ''.'') ''..''
       \<and> (\<exists>k. content = rstrip content ''.'' @ replicate k CHR ''.'')
       \<and> rstrip (content @ ''.'') ''.'' = rstrip content ''.''"
proof -
  from do_create_record_new[OF assms] obtain res s2 where
    p: "post h s1 (''/domains/'' @ format0 (do_domain_id s1) @ ''/records'')
             \<lparr>new_type = rtype, new_name = relative_name base name,
              new_data = (if rtype = ''CNAME'' then rstrip content ''.'' @ ''.'' else content)\<rparr>
             = (res, s2)"
    and c: "do_create_record h base self rtype name content
             = Some (case res of Inl err \<Rightarrow> Raised err | Inr b \<Rightarrow> Returned True, s2)"
    by blast
  from list_records_cases[OF assms] have "posted (sent s1) = posted (sent self)" by blast
  with post_effect(1)[OF p] c
  have "\<exists>res s2. do_create_record h base self rtype name content = Some (res, s2)
            \<and> posted (sent s2)
                = posted (sent self)
                  @ [\<lparr>new_type = rtype, new_name = relative_name base name,
                      new_data = (if rtype = ''CNAME'' then rstrip content ''.'' @ ''.''
                                  else content)\<rparr>]"
    by simp
  with one_trailing_dot[of content] rstrip_dots_split[of content] rstrip_dot_appended[of content]
  show ?thesis by blast
qed

theorem cname_data_normalized_witness:
  "(\<exists>res s2. do_create_record example_http example_base example_do
                ''CNAME'' ''docs'' ''target.example.org..'' = Some (res, s2)
            \<and> posted (sent s2)
                = [\<lparr>new_type = ''CNAME'', new_name = ''docs'',
                    new_data = ''target.example.org.''\<rparr>])
   \<and> (\<exists>res s2. do_create_record example_http example_base example_do
                ''TXT'' ''note'' ''v=1..'' = Some (res, s2)
            \<and> posted (sent s2)
                = [\<lparr>new_type = ''TXT'', new_name = ''note'', new_data = ''v=1..''\<rparr>])"
proof -
  let ?s1 = "example_do\<lparr>sent :=
           [(''GET'', ''https://api.digitalocean.com/v2/domains/example.com/records'', None),
            (''GET'', ''https://api.digitalocean.com/v2/domains/example.com/records?page=2'',
             None)]\<rparr>"
  have l1: "list_records example_http example_base example_do
             (Some ''CNAME'') (Some ''docs'') (Some ''target.example.org..'')
           = Some (Returned [], ?s1)"
    by code_simp
  have l2: "list_records example_http example_base example_do
             (Some ''TXT'') (Some ''note'') (Some ''v=1..'')
           = Some (Returned [], ?s1)"
    by code_simp
  have e: "posted (sent example_do) = []" "relative_name example_base n = n" for n
    by (simp_all add: example_do_def example_base_def posted_def)
  have r: "rstrip ''target.example.org..'' ''.'' @ ''.'' = ''target.example.org.''"
    by (simp add: rstrip_def)
  from cname_data_normalized [OF l1]
  have a: "\<exists>res s2. do_create_record example_http example_base example_do
                ''CNAME'' ''docs'' ''target.example.org..'' = Some (res, s2)
            \<and> posted (sent s2)
                = [\<lparr>new_type = ''CNAME'', new_name = ''docs'',
                    new_data = ''target.example.org.''\<rparr>]"
    unfolding e r by simp
  from cname_data_normalized [OF l2]
  have b: "\<exists>res s2. do_create_record example_http example_base example_do
                ''TXT'' ''note'' ''v=1..'' = Some (res, s2)
            \<and> posted (sent s2)
                = [\<lparr>new_type = ''TXT'', new_name = ''note'', new_data = ''v=1..''\<rparr>]"
    unfolding e by simp
  from a b show ?thesis by blast
qed

end
